theory Spec2Isabelle
  imports Main "HOL-Library.Word"
begin

unbundle bit_operations_syntax

section \<open>Go values\<close>

text \<open>
  A Go string is a sequence of bytes; it is modelled by \<^typ>\<open>string\<close>, whose characters
  are bytes, so \<^term>\<open>length s\<close> is Go's \<open>len(s)\<close>. The fixed-width unsigned integers of
  the source are words.
\<close>

type_synonym byte = "8 word"
type_synonym uint8 = "8 word"
type_synonym uint16 = "16 word"
type_synonym uint32 = "32 word"

definition byteOf :: "char \<Rightarrow> nat" where
  "byteOf c = of_char c"

definition isDigit :: "char \<Rightarrow> bool" where
  "isDigit c = (byteOf CHR ''0'' \<le> byteOf c \<and> byteOf c \<le> byteOf CHR ''9'')"

definition digitVal :: "char \<Rightarrow> nat" where
  "digitVal c = byteOf c - byteOf CHR ''0''"

section \<open>Package strings: ToUpper and ToLower\<close>

text \<open>
  \<open>strings.ToUpper\<close> and \<open>strings.ToLower\<close> have a fast path for strings whose bytes
  are all below \<open>utf8.RuneSelf\<close> (128): the ASCII letters are shifted by
  \<open>'a' - 'A'\<close>, every other byte stays. Any other string goes through
  \<open>strings.Map(unicode.ToUpper, s)\<close> (resp. \<open>unicode.ToLower\<close>), which depends on the
  Unicode tables of the Go runtime; that mapping is a parameter \<open>uni\<close>.
\<close>

definition isASCII :: "string \<Rightarrow> bool" where
  "isASCII s = list_all (\<lambda>c. byteOf c < 128) s"

definition upperByte :: "char \<Rightarrow> char" where
  "upperByte c =
     (if byteOf CHR ''a'' \<le> byteOf c \<and> byteOf c \<le> byteOf CHR ''z''
      then char_of (byteOf c - (byteOf CHR ''a'' - byteOf CHR ''A''))
      else c)"

definition lowerByte :: "char \<Rightarrow> char" where
  "lowerByte c =
     (if byteOf CHR ''A'' \<le> byteOf c \<and> byteOf c \<le> byteOf CHR ''Z''
      then char_of (byteOf c + (byteOf CHR ''a'' - byteOf CHR ''A''))
      else c)"

definition ToUpper :: "(string \<Rightarrow> string) \<Rightarrow> string \<Rightarrow> string" where
  "ToUpper uni s = (if isASCII s then map upperByte s else uni s)"

definition ToLower :: "(string \<Rightarrow> string) \<Rightarrow> string \<Rightarrow> string" where
  "ToLower uni s = (if isASCII s then map lowerByte s else uni s)"

section \<open>Package strconv: ParseInt in base 10\<close>

text \<open>
  \<open>strconv.ParseInt(s, base, bitSize)\<close> is called once, with base 10. With an explicit
  base the library accepts no prefix and no underscore, so only the digit loop of
  \<open>ParseUint\<close> is written here, for base 10. The accumulator is a \<open>uint64\<close> in Go; the
  loop leaves with a range error before it can exceed \<open>maxVal\<close>, so a natural number
  holds it exactly. Go's pair \<open>(value, err)\<close> is a pair whose second component is
  \<^term>\<open>None\<close> for a nil error.
\<close>

datatype numError = ErrSyntax | ErrRange

definition maxUint64 :: nat where
  "maxUint64 = 2 ^ 64 - 1"

fun ParseUint_loop :: "string \<Rightarrow> nat \<Rightarrow> nat \<Rightarrow> nat \<Rightarrow> nat \<times> numError option" where
  "ParseUint_loop [] cutoff maxVal n = (n, None)"
| "ParseUint_loop (c # cs) cutoff maxVal n =
     (if \<not> isDigit c then (0, Some ErrSyntax)
      else if n \<ge> cutoff then (maxVal, Some ErrRange)
      else let n1 = n * 10 + digitVal c in
        if n1 > maxVal then (maxVal, Some ErrRange)
        else ParseUint_loop cs cutoff maxVal n1)"

definition ParseUint :: "string \<Rightarrow> nat \<Rightarrow> nat \<times> numError option" where
  "ParseUint s bitSize =
     (if s = [] then (0, Some ErrSyntax)
      else ParseUint_loop s (maxUint64 div 10 + 1) (2 ^ bitSize - 1) 0)"

definition ParseInt :: "string \<Rightarrow> nat \<Rightarrow> int \<times> numError option" where
  "ParseInt s0 bitSize =
     (if s0 = [] then (0, Some ErrSyntax)
      else
        let neg = (hd s0 = CHR ''-'');
            s = (if hd s0 = CHR ''+'' \<or> hd s0 = CHR ''-'' then tl s0 else s0);
            (un, err) = ParseUint s bitSize;
            cutoff = (2::nat) ^ (bitSize - 1)
        in if err \<noteq> None \<and> err \<noteq> Some ErrRange then (0, err)
           else if \<not> neg \<and> un \<ge> cutoff then (int cutoff - 1, Some ErrRange)
           else if neg \<and> un > cutoff then (- int cutoff, Some ErrRange)
           else (if neg then - int un else int un, None))"

section \<open>Package net: addresses, masks and ParseCIDR\<close>

text \<open>
  \<open>net.IP\<close> and \<open>net.IPMask\<close> are byte slices. A nil slice and an empty one both have
  length 0 and the handler never tells them apart, so nil is \<^term>\<open>[]\<close>; where the
  library's result is tested against nil (\<open>To4\<close>), the result is an option.
\<close>

type_synonym IP = "byte list"
type_synonym IPMask = "byte list"

record IPNet =
  IP :: IP
  Mask :: IPMask

definition IPv4len :: nat where "IPv4len = 4"
definition IPv6len :: nat where "IPv6len = 16"

definition v4InV6Prefix :: "byte list" where
  "v4InV6Prefix = [0, 0, 0, 0, 0, 0, 0, 0, 0, 0, 0xff, 0xff]"

definition allFF :: "byte list \<Rightarrow> bool" where
  "allFF b = list_all (\<lambda>c. c = 0xff) b"

definition isZeros :: "byte list \<Rightarrow> bool" where
  "isZeros p = list_all (\<lambda>c. c = 0) p"

text \<open>\<open>func (ip IP) To4() IP\<close>: the 4-byte form of an IPv4 address, or nil.\<close>

definition To4 :: "IP \<Rightarrow> IP option" where
  "To4 ip =
     (if length ip = IPv4len then Some ip
      else if length ip = IPv6len \<and> isZeros (take 10 ip) \<and> ip ! 10 = 0xff \<and> ip ! 11 = 0xff
        then Some (take 4 (drop 12 ip))
      else None)"

text \<open>
  \<open>func CIDRMask(ones, bits int) IPMask\<close>: the loop fills \<open>l = bits / 8\<close> bytes from the
  left, \<open>n\<close> counting the one bits still to place.
\<close>

fun CIDRMask_loop :: "nat \<Rightarrow> nat \<Rightarrow> byte list" where
  "CIDRMask_loop 0 n = []"
| "CIDRMask_loop (Suc l) n =
     (if n \<ge> 8 then 0xff # CIDRMask_loop l (n - 8)
      else NOT (drop_bit n (0xff :: byte)) # CIDRMask_loop l 0)"

definition CIDRMask :: "int \<Rightarrow> int \<Rightarrow> IPMask" where
  "CIDRMask ones bits =
     (if bits \<noteq> 8 * int IPv4len \<and> bits \<noteq> 8 * int IPv6len then []
      else if ones < 0 \<or> ones > bits then []
      else CIDRMask_loop (nat (bits div 8)) (nat ones))"

text \<open>
  \<open>func (ip IP) Mask(mask IPMask) IP\<close>: a 16-byte mask on a 4-byte address and a 4-byte
  mask on a 16-byte IPv4-mapped address are brought to the same length first; lengths
  that still differ give nil.
\<close>

definition IP_Mask :: "IP \<Rightarrow> IPMask \<Rightarrow> IP" where
  "IP_Mask ip0 mask0 =
     (let msk = (if length mask0 = IPv6len \<and> length ip0 = IPv4len \<and> allFF (take 12 mask0)
                 then drop 12 mask0 else mask0);
          ip = (if length msk = IPv4len \<and> length ip0 = IPv6len \<and> take 12 ip0 = v4InV6Prefix
                then drop 12 ip0 else ip0)
      in if length ip \<noteq> length msk then []
         else map2 (\<lambda>b m. b AND m) ip msk)"

text \<open>
  \<open>func (m IPMask) Size() (ones, bits int)\<close> and its helper \<open>simpleMaskLength\<close>: the
  number of leading one bits when the mask is ones followed by zeros, \<open>-1\<close> otherwise.
  The inner loop \<open>for v&0x80 != 0 { n++; v <<= 1 }\<close> is \<open>leadingOnes\<close>; every turn
  shifts the top bit out, so the byte decreases.
\<close>

lemma double_mod_256:
  assumes "128 \<le> (n::nat)" and "n < 256"
  shows "(2 * n) mod 256 = 2 * n - 256"
proof -
  from assms have "2 * n = 256 + (2 * n - 256)" by simp
  then have "(2 * n) mod 256 = (2 * n - 256) mod 256"
    by (metis mod_add_self1)
  also have "\<dots> = 2 * n - 256" using assms by simp
  finally show ?thesis .
qed

lemma top_bit_shift_decreases:
  fixes v :: byte
  assumes "v AND 0x80 \<noteq> 0"
  shows "unat (push_bit 1 v) < unat v"
proof -
  have "bit v 7"
    using assms and_exp_eq_0_iff_not_bit [of v 7] by simp
  then have ge: "128 \<le> unat v"
    using bit_iff_odd_drop_bit [of "unat v" 7]
    by (auto simp: bit_unsigned_iff drop_bit_eq_div div_eq_0_iff not_less elim: oddE)
  have lt: "unat v < 256"
    using unsigned_less [of v] by simp
  have "unat (push_bit 1 v) = (2 * unat v) mod 256"
    by (simp add: unat_word_ariths push_bit_eq_mult mult.commute)
  also have "\<dots> = 2 * unat v - 256"
    using ge lt by (rule double_mod_256)
  finally show ?thesis
    using ge lt by linarith
qed

function leadingOnes :: "int \<Rightarrow> byte \<Rightarrow> int \<times> byte" where
  "leadingOnes n v =
     (if v AND 0x80 \<noteq> 0 then leadingOnes (n + 1) (push_bit 1 v) else (n, v))"
  by pat_completeness auto
termination
proof (relation "measure (\<lambda>(n, v). unat v)")
  show "wf (measure (\<lambda>(n, v). unat v))" by simp
next
  fix n :: int and v :: byte
  assume "v AND 0x80 \<noteq> 0"
  then have "unat (push_bit 1 v) < unat v" by (rule top_bit_shift_decreases)
  then show "((n + 1, push_bit 1 v), (n, v)) \<in> measure (\<lambda>(n, v). unat v)"
    by (simp del: push_bit_eq_mult)
qed

declare leadingOnes.simps [simp del]

fun simpleMaskLength_from :: "int \<Rightarrow> byte list \<Rightarrow> int" where
  "simpleMaskLength_from n [] = n"
| "simpleMaskLength_from n (v # rest) =
     (if v = 0xff then simpleMaskLength_from (n + 8) rest
      else let (n', v') = leadingOnes n v in
        if v' \<noteq> 0 then -1
        else if list_ex (\<lambda>b. b \<noteq> 0) rest then -1
        else n')"

definition simpleMaskLength :: "IPMask \<Rightarrow> int" where
  "simpleMaskLength m = simpleMaskLength_from 0 m"

definition Size :: "IPMask \<Rightarrow> int \<times> int" where
  "Size m =
     (let ones = simpleMaskLength m; bits = int (length m) * 8
      in if ones = -1 then (0, 0) else (ones, bits))"

text \<open>
  \<open>dtoi\<close> of package net: decimal to integer, returning the number, the characters
  consumed and success.
\<close>

definition big :: nat where
  "big = 0xFFFFFF"

fun dtoi_loop :: "string \<Rightarrow> nat \<Rightarrow> nat \<Rightarrow> nat \<times> nat \<times> bool" where
  "dtoi_loop [] n i = (if i = 0 then (0, 0, False) else (n, i, True))"
| "dtoi_loop (c # cs) n i =
     (if isDigit c then
        (let n' = n * 10 + digitVal c in
         if n' \<ge> big then (big, i, False) else dtoi_loop cs n' (i + 1))
      else if i = 0 then (0, 0, False) else (n, i, True))"

definition dtoi :: "string \<Rightarrow> nat \<times> nat \<times> bool" where
  "dtoi s = dtoi_loop s 0 0"

subsection \<open>Package net/netip: ParseAddr\<close>

text \<open>
  \<open>net.ParseCIDR\<close> parses the address with \<open>netip.ParseAddr\<close>. A \<open>netip.Addr\<close> is
  given by what \<open>ParseCIDR\<close> reads of it: its 16 bytes (\<open>As16\<close>), whether it is an IPv4
  address (\<open>Is4\<close>, which decides \<open>BitLen\<close>) and its zone. A failed parse is
  \<^term>\<open>None\<close>; the text of the library's error is not kept, since \<open>parseQuery\<close>
  replaces it by \<open>errInvalidSubnet\<close>.
\<close>

record netip_Addr =
  As16 :: "byte list"
  Is4 :: bool
  Zone :: string

definition BitLen :: "netip_Addr \<Rightarrow> int" where
  "BitLen a = (if Is4 a then 32 else 128)"

definition AddrFrom4 :: "byte list \<Rightarrow> netip_Addr" where
  "AddrFrom4 flds = \<lparr>As16 = v4InV6Prefix @ flds, Is4 = True, Zone = []\<rparr>"

text \<open>
  \<open>parseIPv4Fields\<close>: one pass over the characters; \<open>i\<close> is the index of the character
  at the head of the remaining string and \<open>prev\<close> the character before it (\<open>s[i-1]\<close>),
  read only when \<open>i > 0\<close>.
\<close>

fun parseIPv4Fields_loop ::
  "string \<Rightarrow> nat \<Rightarrow> char \<Rightarrow> nat \<Rightarrow> nat \<Rightarrow> nat \<Rightarrow> byte list \<Rightarrow> byte list option" where
  "parseIPv4Fields_loop [] i prev val pos digLen flds =
     (if pos < 3 then None else Some (flds[3 := of_nat val]))"
| "parseIPv4Fields_loop (c # cs) i prev val pos digLen flds =
     (if isDigit c then
        (if digLen = 1 \<and> val = 0 then None
         else let val' = val * 10 + digitVal c in
           if val' > 255 then None
           else parseIPv4Fields_loop cs (i + 1) c val' pos (digLen + 1) flds)
      else if c = CHR ''.'' then
        (if i = 0 \<or> cs = [] \<or> prev = CHR ''.'' then None
         else if pos = 3 then None
         else parseIPv4Fields_loop cs (i + 1) c 0 (pos + 1) 0 (flds[pos := of_nat val]))
      else None)"

definition parseIPv4Fields :: "string \<Rightarrow> byte list option" where
  "parseIPv4Fields s = parseIPv4Fields_loop s 0 (CHR ''.'') 0 0 0 [0, 0, 0, 0]"

definition parseIPv4 :: "string \<Rightarrow> netip_Addr option" where
  "parseIPv4 s = map_option AddrFrom4 (parseIPv4Fields s)"

text \<open>
  The hexadecimal group of \<open>parseIPv6\<close>: \<open>off\<close> counts the digits read, \<open>acc\<close> is their
  value; more than four digits or a value above \<open>0xFFFF\<close> fail.
\<close>

definition hexVal :: "char \<Rightarrow> nat option" where
  "hexVal c =
     (if byteOf CHR ''0'' \<le> byteOf c \<and> byteOf c \<le> byteOf CHR ''9''
        then Some (byteOf c - byteOf CHR ''0'')
      else if byteOf CHR ''a'' \<le> byteOf c \<and> byteOf c \<le> byteOf CHR ''f''
        then Some (byteOf c - byteOf CHR ''a'' + 10)
      else if byteOf CHR ''A'' \<le> byteOf c \<and> byteOf c \<le> byteOf CHR ''F''
        then Some (byteOf c - byteOf CHR ''A'' + 10)
      else None)"

fun hexLoop :: "string \<Rightarrow> nat \<Rightarrow> nat \<Rightarrow> (nat \<times> nat) option" where
  "hexLoop [] off acc = Some (acc, off)"
| "hexLoop (c # cs) off acc =
     (case hexVal c of
        None \<Rightarrow> Some (acc, off)
      | Some d \<Rightarrow>
          let acc' = acc * 16 + d in
          if off > 3 then None
          else if acc' > 0xFFFF then None
          else hexLoop cs (off + 1) acc')"

text \<open>
  The main loop of \<open>parseIPv6\<close> over the state \<open>(i, s, ip, ellipsis)\<close>; it returns the
  state at the \<open>break\<close> (or at \<open>i = 16\<close>), \<^term>\<open>None\<close> where the library returns an
  error. \<open>i\<close> grows by 2 at every turn, so it is even and \<open>ip[i+1]\<close> is in range; the
  embedded IPv4 address is parsed from the rest of the string, which is what the slice
  \<open>in[end-len(s):end]\<close> of the library is.
\<close>

function parseIPv6_loop ::
  "nat \<Rightarrow> string \<Rightarrow> byte list \<Rightarrow> int \<Rightarrow> (nat \<times> string \<times> byte list \<times> int) option" where
  "parseIPv6_loop i s ip ellipsis =
     (if \<not> i < 16 then Some (i, s, ip, ellipsis)
      else case hexLoop s 0 0 of
        None \<Rightarrow> None
      | Some (acc, off) \<Rightarrow>
          if off = 0 then None
          else if off < length s \<and> s ! off = CHR ''.'' then
            (if ellipsis < 0 \<and> i \<noteq> 12 then None
             else if i + 4 > 16 then None
             else case parseIPv4Fields s of
               None \<Rightarrow> None
             | Some flds \<Rightarrow>
                 Some (i + 4, [],
                   ip[i := flds ! 0, i + 1 := flds ! 1, i + 2 := flds ! 2, i + 3 := flds ! 3],
                   ellipsis))
          else
            let ip' = ip[i := of_nat (drop_bit 8 acc), i + 1 := of_nat acc];
                i' = i + 2;
                s' = drop off s
            in if s' = [] then Some (i', s', ip', ellipsis)
               else if hd s' \<noteq> CHR '':'' then None
               else if length s' = 1 then None
               else
                 let s'' = tl s' in
                 if hd s'' = CHR '':'' then
                   (if ellipsis \<ge> 0 then None
                    else if tl s'' = [] then Some (i', tl s'', ip', int i')
                    else parseIPv6_loop i' (tl s'') ip' (int i'))
                 else parseIPv6_loop i' s'' ip' ellipsis)"
  by pat_completeness auto
termination
  by (relation "measure (\<lambda>(i, s, ip, ellipsis). 16 - i)") auto

declare parseIPv6_loop.simps [simp del]

text \<open>The expansion of the ellipsis: the two loops at the end of \<open>parseIPv6\<close>.\<close>

definition expandEllipsis :: "nat \<Rightarrow> nat \<Rightarrow> byte list \<Rightarrow> byte list" where
  "expandEllipsis i ellipsis ip =
     (let n = 16 - i;
          moved = fold (\<lambda>j a. a[j + n := a ! j]) (rev [ellipsis ..< i]) ip
      in fold (\<lambda>j a. a[j := 0]) [ellipsis ..< ellipsis + n] moved)"

definition splitZone :: "string \<Rightarrow> (string \<times> string) option" where
  "splitZone s =
     (if CHR ''%'' \<in> set s then
        (let z = tl (dropWhile (\<lambda>c. c \<noteq> CHR ''%'') s)
         in if z = [] then None else Some (takeWhile (\<lambda>c. c \<noteq> CHR ''%'') s, z))
      else Some (s, []))"

definition parseIPv6 :: "string \<Rightarrow> netip_Addr option" where
  "parseIPv6 inp =
     (case splitZone inp of
        None \<Rightarrow> None
      | Some (s0, zone) \<Rightarrow>
          let lead = (length s0 \<ge> 2 \<and> s0 ! 0 = CHR '':'' \<and> s0 ! 1 = CHR '':'');
              ellipsis0 = (if lead then 0 else - 1 :: int);
              s = (if lead then drop 2 s0 else s0)
          in if lead \<and> s = [] then Some \<lparr>As16 = replicate 16 0, Is4 = False, Zone = zone\<rparr>
             else case parseIPv6_loop 0 s (replicate 16 0) ellipsis0 of
               None \<Rightarrow> None
             | Some (i, s', ip, ellipsis) \<Rightarrow>
                 if s' \<noteq> [] then None
                 else if i < 16 then
                   (if ellipsis < 0 then None
                    else Some \<lparr>As16 = expandEllipsis i (nat ellipsis) ip, Is4 = False, Zone = zone\<rparr>)
                 else if ellipsis \<ge> 0 then None
                 else Some \<lparr>As16 = ip, Is4 = False, Zone = zone\<rparr>)"

text \<open>\<open>ParseAddr\<close> dispatches on the first of \<open>.\<close>, \<open>:\<close> and \<open>%\<close> in the string.\<close>

fun ParseAddr_scan :: "string \<Rightarrow> string \<Rightarrow> netip_Addr option" where
  "ParseAddr_scan s [] = None"
| "ParseAddr_scan s (c # cs) =
     (if c = CHR ''.'' then parseIPv4 s
      else if c = CHR '':'' then parseIPv6 s
      else if c = CHR ''%'' then None
      else ParseAddr_scan s cs)"

definition ParseAddr :: "string \<Rightarrow> netip_Addr option" where
  "ParseAddr s = ParseAddr_scan s s"

subsection \<open>ParseCIDR\<close>

text \<open>
  \<open>func ParseCIDR(s string) (IP, *IPNet, error)\<close>: the address is the text before the
  first \<open>/\<close>, the prefix length the decimal number after it. The first result is the
  address as written, the second the network: the address masked, and the mask.
\<close>

definition ParseCIDR :: "string \<Rightarrow> (IP \<times> IPNet) option" where
  "ParseCIDR s =
     (if CHR ''/'' \<notin> set s then None
      else
        let addr = takeWhile (\<lambda>c. c \<noteq> CHR ''/'') s;
            msk = tl (dropWhile (\<lambda>c. c \<noteq> CHR ''/'') s)
        in case ParseAddr addr of
             None \<Rightarrow> None
           | Some ipAddr \<Rightarrow>
               if Zone ipAddr \<noteq> [] then None
               else
                 let (n, i, ok) = dtoi msk in
                 if \<not> ok \<or> i \<noteq> length msk \<or> int n > BitLen ipAddr then None
                 else
                   let m = CIDRMask (int n) (BitLen ipAddr);
                       addr16 = As16 ipAddr
                   in Some (addr16, \<lparr>IP = IP_Mask addr16 m, Mask = m\<rparr>))"

section \<open>Package dns (github.com/miekg/dns): the message types\<close>

text \<open>
  The structs of the DNS library that the handler builds and reads. An \<open>RR\<close> is an
  interface in Go; the handler creates one kind of it (\<open>*dns.OPT\<close>) and, on the records
  of a reply, calls the methods \<open>Header()\<close> and \<open>String()\<close> only. A record of any other
  kind is therefore given by its header and its textual rendering. The only option the
  handler puts into an \<open>OPT\<close> record is an \<open>EDNS0_SUBNET\<close>.
\<close>

record RR_Header =
  hdr_Name :: string
  hdr_Rrtype :: uint16
  hdr_Class :: uint16
  hdr_Ttl :: uint32
  hdr_Rdlength :: uint16

record EDNS0_SUBNET =
  Code :: uint16
  Family :: uint16
  SourceNetmask :: uint8
  SourceScope :: uint8
  Address :: IP

record OPT =
  Hdr :: RR_Header
  Option :: "EDNS0_SUBNET list"

datatype RR = RR_OPT OPT | RR_other RR_Header string

record Question =
  q_Name :: string
  Qtype :: uint16
  Qclass :: uint16

record Msg =
  Id :: uint16
  Response :: bool
  Opcode :: int
  Authoritative :: bool
  Truncated :: bool
  RecursionDesired :: bool
  RecursionAvailable :: bool
  Zero :: bool
  AuthenticatedData :: bool
  CheckingDisabled :: bool
  Rcode :: int
  Compress :: bool
  Question :: "Question list"
  Answer :: "RR list"
  Ns :: "RR list"
  Extra :: "RR list"

definition TypeOPT :: uint16 where "TypeOPT = 41"
definition EDNS0SUBNET :: uint16 where "EDNS0SUBNET = 0x8"
definition ClassINET :: uint16 where "ClassINET = 1"

text \<open>The zero values \<open>&dns.Msg{}\<close>, \<open>new(dns.OPT)\<close> and \<open>new(dns.EDNS0_SUBNET)\<close>.\<close>

definition zero_RR_Header :: RR_Header where
  "zero_RR_Header =
     \<lparr>hdr_Name = [], hdr_Rrtype = 0, hdr_Class = 0, hdr_Ttl = 0, hdr_Rdlength = 0\<rparr>"

definition zero_Msg :: Msg where
  "zero_Msg =
     \<lparr>Id = 0, Response = False, Opcode = 0, Authoritative = False, Truncated = False,
      RecursionDesired = False, RecursionAvailable = False, Zero = False,
      AuthenticatedData = False, CheckingDisabled = False, Rcode = 0, Compress = False,
      Question = [], Answer = [], Ns = [], Extra = []\<rparr>"

definition zero_OPT :: OPT where
  "zero_OPT = \<lparr>Hdr = zero_RR_Header, Option = []\<rparr>"

definition zero_EDNS0_SUBNET :: EDNS0_SUBNET where
  "zero_EDNS0_SUBNET =
     \<lparr>Code = 0, Family = 0, SourceNetmask = 0, SourceScope = 0, Address = []\<rparr>"

section \<open>Package dnsjson: the JSON response\<close>

text \<open>
  Modelled from the spec: the declarations of \<open>dnsjson.Response\<close> and \<open>dnsjson.RR\<close>
  (package \<open>internal/dnsjson\<close> is not among the sources). The fields are the ones the
  handler assigns, with the types of the values it assigns to them; a field it leaves
  alone has Go's zero value.
\<close>

record json_RR =
  json_Name :: string
  json_Type :: uint16
  json_TTL :: uint32
  json_Data :: string

record Response_json =
  Status :: int
  TC :: bool
  RD :: bool
  RA :: bool
  AD :: bool
  CD :: bool
  json_Question :: "json_RR list"
  json_Answer :: "json_RR list"

section \<open>Package httpstodns\<close>

subsection \<open>Errors\<close>

text \<open>
  The six sentinel errors of the package are distinct values; any other error (of the
  DNS exchange, of the JSON encoder, or made by \<open>util.TraceErrorf\<close>) is given by its
  message. \<open>Error\<close> is the method \<open>Error()\<close>.
\<close>

datatype error =
    errEmptyName
  | errNameTooLong
  | errInvalidSubnet
  | errIntOutOfRange
  | errUnknownType
  | errInvalidCD
  | otherError string

fun Error :: "error \<Rightarrow> string" where
  "Error errEmptyName = ''empty name''"
| "Error errNameTooLong = ''name too long''"
| "Error errInvalidSubnet = ''invalid edns_client_subnet''"
| "Error errIntOutOfRange = ''invalid type (int out of range)''"
| "Error errUnknownType = ''invalid type (unknown string type)''"
| "Error errInvalidCD = ''invalid cd value''"
| "Error (otherError msg) = msg"

subsection \<open>What the package takes from outside\<close>

text \<open>
  The handler calls into the DNS library, the JSON encoder and the package
  \<open>internal/util\<close>; none of them is among the sources, and no property below depends on
  what they compute, so they are the fields of an environment:
  \<^item> \<open>StringToType\<close>: the table \<open>dns.StringToType\<close> from type names to type codes;
  \<^item> \<open>unicodeToUpper\<close>, \<open>unicodeToLower\<close>: \<open>strings.Map(unicode.ToUpper, s)\<close> and
    \<open>strings.Map(unicode.ToLower, s)\<close>, used on strings that are not pure ASCII;
  \<^item> \<open>Fqdn\<close>: \<open>dns.Fqdn\<close>;
  \<^item> \<open>newId\<close>: the value \<open>dns.Id()\<close> returns to \<open>SetQuestion\<close>;
  \<^item> \<open>Exchange\<close>: \<open>dns.Exchange(m, addr)\<close>, returning the reply (nil is
    \<^term>\<open>None\<close>) and the error (nil is \<^term>\<open>None\<close>);
  \<^item> \<open>Hdr_String\<close>: the method \<open>String()\<close> of \<open>*dns.RR_Header\<close>;
  \<^item> \<open>OPT_String\<close>: the method \<open>String()\<close> of \<open>*dns.OPT\<close>;
  \<^item> \<open>Marshal\<close>: \<open>json.Marshal\<close> on a \<open>dnsjson.Response\<close>;
  \<^item> \<open>TraceErrorf\<close>: \<open>util.TraceErrorf(tr, format, args...)\<close>, which returns the
    error it has formatted and traced; its arguments here are errors.
  Writing to the trace (\<open>tr.LazyPrintf\<close>, \<open>util.TraceError\<close>, \<open>util.TraceQuestion\<close>,
  \<open>util.TraceAnswer\<close>) changes nothing the handler returns and is left out.
\<close>

record env =
  StringToType :: "string \<rightharpoonup> uint16"
  unicodeToUpper :: "string \<Rightarrow> string"
  unicodeToLower :: "string \<Rightarrow> string"
  Fqdn :: "string \<Rightarrow> string"
  newId :: uint16
  Exchange :: "Msg \<Rightarrow> string \<Rightarrow> Msg option \<times> error option"
  Hdr_String :: "RR_Header \<Rightarrow> string"
  OPT_String :: "OPT \<Rightarrow> string"
  Marshal :: "Response_json \<Rightarrow> string \<times> error option"
  TraceErrorf :: "string \<Rightarrow> error list \<Rightarrow> error"

definition RR_header :: "RR \<Rightarrow> RR_Header" where
  "RR_header a = (case a of RR_OPT opt \<Rightarrow> Hdr opt | RR_other h s \<Rightarrow> h)"

definition RR_String :: "env \<Rightarrow> RR \<Rightarrow> string" where
  "RR_String e a = (case a of RR_OPT opt \<Rightarrow> OPT_String e opt | RR_other h s \<Rightarrow> s)"

subsection \<open>The query\<close>

record query =
  name :: string
  rrType :: uint16
  cd :: bool
  clientSubnet :: "IPNet option"

text \<open>
  \<open>stringToRRType\<close> converts a string into a DNS type constant. A Go function that
  returns \<open>(value, error)\<close> is a sum: \<^term>\<open>Inl\<close> the error, \<^term>\<open>Inr\<close> the value
  returned with a nil error (no caller reads the value that comes with an error).
\<close>

definition stringToRRType :: "env \<Rightarrow> string \<Rightarrow> error + uint16" where
  "stringToRRType e s =
     (let (i, err) = ParseInt s 16 in
      if err = None then
        (if 1 \<le> i \<and> i \<le> 65535 then Inr (of_int i) else Inl errIntOutOfRange)
      else
        (case StringToType e (ToUpper (unicodeToUpper e) s) of
           None \<Rightarrow> Inl errUnknownType
         | Some t \<Rightarrow> Inr t))"

definition stringToBool :: "env \<Rightarrow> string \<Rightarrow> error + bool" where
  "stringToBool e s =
     (let l = ToLower (unicodeToLower e) s in
      if l = [] \<or> l = ''1'' \<or> l = ''true'' then Inr True
      else if l = ''0'' \<or> l = ''false'' then Inr False
      else Inl errInvalidCD)"

text \<open>
  \<open>parseQuery\<close> reads \<open>u.Query()\<close>, a \<open>url.Values\<close>: a map from keys to the list of
  the values given for the key, in the order of the URL. That map is the argument here.
  The first loop of the function is \<open>simplify\<close>.
\<close>

type_synonym Values = "string \<rightharpoonup> string list"

definition simplify :: "Values \<Rightarrow> (string \<rightharpoonup> string)" where
  "simplify uq k =
     (case uq k of
        None \<Rightarrow> None
      | Some values \<Rightarrow> Some (if length values > 0 then values ! 0 else []))"

definition parseQuery :: "env \<Rightarrow> Values \<Rightarrow> error + query" where
  "parseQuery e uq =
     (let vs = simplify uq in
      case vs ''name'' of
        None \<Rightarrow> Inl errEmptyName
      | Some nm \<Rightarrow>
          if nm = [] then Inl errEmptyName
          else if length nm > 253 then Inl errNameTooLong
          else
            case (case vs ''type'' of
                    None \<Rightarrow> Inr 1
                  | Some ty \<Rightarrow> stringToRRType e ty) of
              Inl err \<Rightarrow> Inl err
            | Inr rrt \<Rightarrow>
                case (case vs ''cd'' of
                        None \<Rightarrow> Inr False
                      | Some c \<Rightarrow> stringToBool e c) of
                  Inl err \<Rightarrow> Inl err
                | Inr cdv \<Rightarrow>
                    case vs ''edns_client_subnet'' of
                      None \<Rightarrow>
                        Inr \<lparr>name = nm, rrType = rrt, cd = cdv, clientSubnet = None\<rparr>
                    | Some cs \<Rightarrow>
                        (case ParseCIDR cs of
                           None \<Rightarrow> Inl errInvalidSubnet
                         | Some (ip, ipnet) \<Rightarrow>
                             Inr \<lparr>name = nm, rrType = rrt, cd = cdv,
                                  clientSubnet = Some ipnet\<rparr>))"

subsection \<open>The handler\<close>

record Server =
  Addr :: string
  Upstream :: string
  CertFile :: string
  KeyFile :: string

definition StatusBadRequest :: nat where "StatusBadRequest = 400"
definition StatusRequestTimeout :: nat where "StatusRequestTimeout = 408"
definition StatusFailedDependency :: nat where "StatusFailedDependency = 424"
definition StatusInternalServerError :: nat where "StatusInternalServerError = 500"

text \<open>
  What \<open>Resolve\<close> does to its \<open>http.ResponseWriter\<close>: one call \<open>http.Error(w, msg, code)\<close>,
  which replies with the plain-text message and the status code, or one call
  \<open>w.Write(buf)\<close>; or the handler panics before it writes anything.
\<close>

datatype written = http_Error string nat | w_Write string | panic

record outcome =
  exchanges :: "(Msg \<times> string) list"
  reply :: written

definition SetQuestion :: "env \<Rightarrow> Msg \<Rightarrow> string \<Rightarrow> uint16 \<Rightarrow> Msg" where
  "SetQuestion e m z t =
     m\<lparr>Id := newId e, RecursionDesired := True,
       Question := [\<lparr>q_Name = z, Qtype = t, Qclass = ClassINET\<rparr>]\<rparr>"

text \<open>The part of \<open>Resolve\<close> that constructs the DNS request \<open>r\<close> from the query.\<close>

definition buildRequest :: "env \<Rightarrow> query \<Rightarrow> Msg" where
  "buildRequest e q =
     (let r = zero_Msg\<lparr>CheckingDisabled := cd q\<rparr>;
          r = SetQuestion e r (Fqdn e (name q)) (rrType q)
      in case clientSubnet q of
           None \<Rightarrow> r
         | Some subnet \<Rightarrow>
             let opt = zero_OPT\<lparr>Hdr := zero_RR_Header\<lparr>hdr_Name := ''.'', hdr_Rrtype := TypeOPT\<rparr>\<rparr>;
                 es = zero_EDNS0_SUBNET\<lparr>Code := EDNS0SUBNET\<rparr>;
                 es = (case To4 (IP subnet) of
                         Some ipv4 \<Rightarrow> es\<lparr>Family := 1, Address := ipv4\<rparr>
                       | None \<Rightarrow> es\<lparr>Family := 2, Address := IP subnet\<rparr>);
                 es = es\<lparr>SourceScope := 0\<rparr>;
                 (ones, maskSize) = Size (Mask subnet);
                 es = es\<lparr>SourceNetmask := of_int maskSize\<rparr>;
                 opt = opt\<lparr>Option := Option opt @ [es]\<rparr>
             in r\<lparr>Extra := Extra r @ [RR_OPT opt]\<rparr>)"

text \<open>
  The part of \<open>Resolve\<close> that converts the reply to \<open>dnsjson.Response\<close>. The slice
  expression \<open>a.String()[len(hs):]\<close> panics when the rendering of the record is shorter
  than the rendering of its header; that is \<^term>\<open>None\<close>.
\<close>

definition answerRR :: "env \<Rightarrow> RR \<Rightarrow> json_RR option" where
  "answerRR e a =
     (let hdr = RR_header a;
          hs = Hdr_String e hdr;
          s = RR_String e a
      in if length hs > length s then None
         else Some \<lparr>json_Name = hdr_Name hdr, json_Type = hdr_Rrtype hdr,
                    json_TTL = hdr_Ttl hdr, json_Data = drop (length hs) s\<rparr>)"

fun answers_loop :: "env \<Rightarrow> RR list \<Rightarrow> Response_json \<Rightarrow> Response_json option" where
  "answers_loop e [] jr = Some jr"
| "answers_loop e (a # rest) jr =
     (case answerRR e a of
        None \<Rightarrow> None
      | Some ja \<Rightarrow> answers_loop e rest (jr\<lparr>json_Answer := json_Answer jr @ [ja]\<rparr>))"

fun questions_loop :: "Question list \<Rightarrow> Response_json \<Rightarrow> Response_json" where
  "questions_loop [] jr = jr"
| "questions_loop (q # qs) jr =
     questions_loop qs
       (jr\<lparr>json_Question := json_Question jr @
          [\<lparr>json_Name = q_Name q, json_Type = Qtype q, json_TTL = 0, json_Data = []\<rparr>]\<rparr>)"

definition mapReply :: "env \<Rightarrow> Msg \<Rightarrow> Response_json option" where
  "mapReply e fromUp =
     (let jr = \<lparr>Status = Rcode fromUp, TC = Truncated fromUp, RD = RecursionDesired fromUp,
                RA = RecursionAvailable fromUp, AD = AuthenticatedData fromUp,
                CD = CheckingDisabled fromUp, json_Question = [], json_Answer = []\<rparr>;
          jr = questions_loop (Question fromUp) jr
      in answers_loop e (Answer fromUp) jr)"

text \<open>
  \<open>Resolve\<close>: the outcome lists the calls of \<open>dns.Exchange\<close> the handler has made, with
  their arguments, and what it has written.
\<close>

definition Resolve :: "env \<Rightarrow> Server \<Rightarrow> Values \<Rightarrow> outcome" where
  "Resolve e s uq =
     (case parseQuery e uq of
        Inl err \<Rightarrow> \<lparr>exchanges = [], reply = http_Error (Error err) StatusBadRequest\<rparr>
      | Inr q \<Rightarrow>
          let r = buildRequest e q;
              (fromUp, err) = Exchange e r (Upstream s)
          in \<lparr>exchanges = [(r, Upstream s)],
              reply =
                (case err of
                   Some x \<Rightarrow>
                     http_Error (Error (TraceErrorf e ''dns exchange error: %v'' [x]))
                       StatusFailedDependency
                 | None \<Rightarrow>
                     (case fromUp of
                        None \<Rightarrow>
                          http_Error (Error (TraceErrorf e ''no response from upstream'' []))
                            StatusRequestTimeout
                      | Some m \<Rightarrow>
                          (case mapReply e m of
                             None \<Rightarrow> panic
                           | Some jr \<Rightarrow>
                               let (buf, merr) = Marshal e jr in
                               case merr of
                                 Some x \<Rightarrow>
                                   http_Error (Error (TraceErrorf e ''failed to marshal: %v'' [x]))
                                     StatusInternalServerError
                               | None \<Rightarrow> w_Write buf)))\<rparr>)"

subsection \<open>An environment for the examples\<close>

text \<open>
  The examples below run the handler in a small concrete environment: an excerpt of the
  type table of the DNS library, \<open>dns.Fqdn\<close> as the library's documentation describes it
  (a trailing dot is added when there is none), a header rendering that ends in a
  separator, an upstream that answers every exchange with the given result \<open>up\<close>, an
  encoder that returns the given result \<open>js\<close>, and a \<open>TraceErrorf\<close> that puts the
  messages of its arguments in the places of the \<open>%v\<close> of the format.
\<close>

definition exampleTypes :: "string \<rightharpoonup> uint16" where
  "exampleTypes =
     map_of [(''A'', 1), (''NS'', 2), (''CNAME'', 5), (''SOA'', 6), (''PTR'', 12),
             (''MX'', 15), (''TXT'', 16), (''AAAA'', 28), (''SRV'', 33), (''ANY'', 255)]"

fun exampleSprintf :: "string \<Rightarrow> string list \<Rightarrow> string" where
  "exampleSprintf [] args = []"
| "exampleSprintf [c] args = [c]"
| "exampleSprintf (c # d # rest) args =
     (if c = CHR ''%'' \<and> d = CHR ''v'' then
        (case args of
           [] \<Rightarrow> c # d # exampleSprintf rest []
         | a # args' \<Rightarrow> a @ exampleSprintf rest args')
      else c # exampleSprintf (d # rest) args)"

definition exampleFqdn :: "string \<Rightarrow> string" where
  "exampleFqdn s = (if s \<noteq> [] \<and> last s = CHR ''.'' then s else s @ ''.'')"

definition exampleEnv :: "Msg option \<times> error option \<Rightarrow> string \<times> error option \<Rightarrow> env" where
  "exampleEnv up js =
     \<lparr>StringToType = exampleTypes,
      unicodeToUpper = (\<lambda>s. s),
      unicodeToLower = (\<lambda>s. s),
      Fqdn = exampleFqdn,
      newId = 0x1234,
      Exchange = (\<lambda>m addr. up),
      Hdr_String = (\<lambda>h. hdr_Name h @ '' ''),
      OPT_String = (\<lambda>opt. ''OPT''),
      Marshal = (\<lambda>jr. js),
      TraceErrorf = (\<lambda>format args. otherError (exampleSprintf format (map Error args)))\<rparr>"

definition noUpstream :: env where
  "noUpstream = exampleEnv (None, None) ([], None)"

definition exampleServer :: Server where
  "exampleServer =
     \<lparr>Addr = '':443'', Upstream = ''8.8.8.8:53'', CertFile = ''cert.pem'', KeyFile = ''key.pem''\<rparr>"

definition exampleReply :: Msg where
  "exampleReply =
     zero_Msg\<lparr>Response := True, RecursionDesired := True, RecursionAvailable := True,
       Question := [\<lparr>q_Name = ''example.com.'', Qtype = 1, Qclass = 1\<rparr>],
       Answer := [RR_other
         \<lparr>hdr_Name = ''example.com.'', hdr_Rrtype = 1, hdr_Class = 1, hdr_Ttl = 300,
          hdr_Rdlength = 4\<rparr>
         ''example.com. 93.184.216.34'']\<rparr>"

section \<open>Properties of the query parser\<close>

lemma stringToRRType_errors:
  "stringToRRType e s = Inl err \<Longrightarrow> err = errIntOutOfRange \<or> err = errUnknownType"
  by (auto simp: stringToRRType_def Let_def split: prod.splits if_splits option.splits)

lemma stringToBool_errors:
  "stringToBool e s = Inl err \<Longrightarrow> err = errInvalidCD"
  by (auto simp: stringToBool_def Let_def split: if_splits)

lemma parseQuery_errors_after_name:
  assumes "simplify uq ''name'' = Some nm" "nm \<noteq> []" "length nm \<le> 253"
    and "parseQuery e uq = Inl err"
  shows "err = errIntOutOfRange \<or> err = errUnknownType \<or> err = errInvalidCD \<or> err = errInvalidSubnet"
  using assms
  by (auto simp: parseQuery_def Let_def split: option.splits sum.splits if_splits
      dest: stringToRRType_errors stringToBool_errors)

text \<open>
  Claim C7. Name validation: a query whose \<open>name\<close> key is missing, or whose value is the
  empty string, fails with \<open>errEmptyName\<close>; a name longer than 253 bytes fails with
  \<open>errNameTooLong\<close>; a non-empty name of at most 253 bytes passes both checks, and a
  query that has only a \<open>name\<close> of exactly 253 bytes is accepted, with the defaults for
  the other fields.
\<close>

theorem parseQuery_name_validation:
  "(simplify uq ''name'' = None \<or> simplify uq ''name'' = Some [] \<longrightarrow>
      parseQuery e uq = Inl errEmptyName) \<and>
   (\<forall>nm. simplify uq ''name'' = Some nm \<and> length nm > 253 \<longrightarrow>
      parseQuery e uq = Inl errNameTooLong) \<and>
   (\<forall>nm. simplify uq ''name'' = Some nm \<and> nm \<noteq> [] \<and> length nm \<le> 253 \<longrightarrow>
      parseQuery e uq \<noteq> Inl errEmptyName \<and> parseQuery e uq \<noteq> Inl errNameTooLong) \<and>
   (\<forall>nm. length nm = 253 \<longrightarrow>
      parseQuery e [''name'' \<mapsto> [nm]] =
        Inr \<lparr>name = nm, rrType = 1, cd = False, clientSubnet = None\<rparr>)"
proof (intro conjI allI impI)
  assume "simplify uq ''name'' = None \<or> simplify uq ''name'' = Some []"
  then show "parseQuery e uq = Inl errEmptyName"
    by (auto simp: parseQuery_def Let_def)
next
  fix nm assume "simplify uq ''name'' = Some nm \<and> length nm > 253"
  then show "parseQuery e uq = Inl errNameTooLong"
    by (auto simp: parseQuery_def Let_def)
next
  fix nm assume a: "simplify uq ''name'' = Some nm \<and> nm \<noteq> [] \<and> length nm \<le> 253"
  show "parseQuery e uq \<noteq> Inl errEmptyName"
    using parseQuery_errors_after_name [of uq nm e errEmptyName] a by auto
  show "parseQuery e uq \<noteq> Inl errNameTooLong"
    using parseQuery_errors_after_name [of uq nm e errNameTooLong] a by auto
next
  fix nm :: string assume "length nm = 253"
  then have "nm \<noteq> []" by auto
  with \<open>length nm = 253\<close> show "parseQuery e [''name'' \<mapsto> [nm]] =
        Inr \<lparr>name = nm, rrType = 1, cd = False, clientSubnet = None\<rparr>"
    by (simp add: parseQuery_def simplify_def Let_def)
qed

theorem parseQuery_name_validation_witness:
  "parseQuery noUpstream Map.empty = Inl errEmptyName \<and>
   parseQuery noUpstream [''name'' \<mapsto> [[]]] = Inl errEmptyName \<and>
   parseQuery noUpstream [''name'' \<mapsto> [replicate 254 CHR ''a'']] = Inl errNameTooLong \<and>
   parseQuery noUpstream [''name'' \<mapsto> [replicate 253 CHR ''a'']] =
     Inr \<lparr>name = replicate 253 CHR ''a'', rrType = 1, cd = False, clientSubnet = None\<rparr>"
proof -
  have 1: "parseQuery noUpstream Map.empty = Inl errEmptyName"
    using parseQuery_name_validation [of Map.empty noUpstream] by (simp add: simplify_def)
  have 2: "parseQuery noUpstream [''name'' \<mapsto> [[]]] = Inl errEmptyName"
    using parseQuery_name_validation [of "[''name'' \<mapsto> [[]]]" noUpstream] by (simp add: simplify_def)
  have 3: "parseQuery noUpstream [''name'' \<mapsto> [replicate 254 CHR ''a'']] = Inl errNameTooLong"
    using parseQuery_name_validation [of "[''name'' \<mapsto> [replicate 254 CHR ''a'']]" noUpstream]
    by (simp add: simplify_def)
  have 4: "parseQuery noUpstream [''name'' \<mapsto> [replicate 253 CHR ''a'']] =
     Inr \<lparr>name = replicate 253 CHR ''a'', rrType = 1, cd = False, clientSubnet = None\<rparr>"
    using parseQuery_name_validation [of Map.empty noUpstream] by simp
  from 1 2 3 4 show ?thesis by blast
qed

lemma simplify_first_values:
  assumes "\<And>k. map_option (\<lambda>values. case values of [] \<Rightarrow> [] | v # rest \<Rightarrow> v) (uq k) =
               map_option (\<lambda>values. case values of [] \<Rightarrow> [] | v # rest \<Rightarrow> v) (uq' k)"
  shows "simplify uq = simplify uq'"
proof
  fix k
  show "simplify uq k = simplify uq' k"
    using assms [of k]
    by (cases "uq k"; cases "uq' k") (auto simp: simplify_def split: list.splits)
qed

lemma parseQuery_simplify_cong:
  "simplify uq = simplify uq' \<Longrightarrow> parseQuery e uq = parseQuery e uq'"
  by (simp add: parseQuery_def)

text \<open>
  Claim C9. Only the first value of a key is used: the simplified map holds the first
  value of every key, a key with an empty list of values is present with the empty
  string, and two queries whose keys have the same first values (an empty list counting
  as the empty string) are parsed to the same result, whatever the later values are.
\<close>

theorem parseQuery_first_value_only:
  "(\<forall>k v rest. uq k = Some (v # rest) \<longrightarrow> simplify uq k = Some v) \<and>
   (\<forall>k. uq k = Some [] \<longrightarrow> simplify uq k = Some []) \<and>
   (\<forall>k. uq k = None \<longrightarrow> simplify uq k = None) \<and>
   ((\<forall>k. map_option (\<lambda>values. case values of [] \<Rightarrow> [] | v # rest \<Rightarrow> v) (uq k) =
         map_option (\<lambda>values. case values of [] \<Rightarrow> [] | v # rest \<Rightarrow> v) (uq' k)) \<longrightarrow>
      parseQuery e uq = parseQuery e uq')"
proof (intro conjI allI impI)
  fix k v rest assume "uq k = Some (v # rest)"
  then show "simplify uq k = Some v" by (simp add: simplify_def)
next
  fix k assume "uq k = Some []"
  then show "simplify uq k = Some []" by (simp add: simplify_def)
next
  fix k assume "uq k = None"
  then show "simplify uq k = None" by (simp add: simplify_def)
next
  assume "\<forall>k. map_option (\<lambda>values. case values of [] \<Rightarrow> [] | v # rest \<Rightarrow> v) (uq k) =
         map_option (\<lambda>values. case values of [] \<Rightarrow> [] | v # rest \<Rightarrow> v) (uq' k)"
  then have "simplify uq = simplify uq'"
    by (intro simplify_first_values) simp
  then show "parseQuery e uq = parseQuery e uq'"
    by (rule parseQuery_simplify_cong)
qed

theorem parseQuery_first_value_only_witness:
  "simplify [''name'' \<mapsto> [''a.example'', ''b.example''], ''cd'' \<mapsto> []] ''name'' = Some ''a.example'' \<and>
   simplify [''name'' \<mapsto> [''a.example'', ''b.example''], ''cd'' \<mapsto> []] ''cd'' = Some [] \<and>
   simplify [''name'' \<mapsto> [''a.example'', ''b.example''], ''cd'' \<mapsto> []] ''type'' = None \<and>
   parseQuery noUpstream [''name'' \<mapsto> [''a.example'', ''b.example''], ''cd'' \<mapsto> []] =
     parseQuery noUpstream [''name'' \<mapsto> [''a.example''], ''cd'' \<mapsto> [[]]]"
  using parseQuery_first_value_only
    [of "[''name'' \<mapsto> [''a.example'', ''b.example''], ''cd'' \<mapsto> []]"
        "[''name'' \<mapsto> [''a.example''], ''cd'' \<mapsto> [[]]]" noUpstream]
  by simp

lemma ToLower_ASCII: "isASCII v \<Longrightarrow> ToLower uni v = map lowerByte v"
  by (simp add: ToLower_def)

lemma lowerByte_examples:
  "lowerByte CHR ''T'' = CHR ''t''" "lowerByte CHR ''R'' = CHR ''r''"
  "lowerByte CHR ''U'' = CHR ''u''" "lowerByte CHR ''E'' = CHR ''e''"
  "lowerByte CHR ''F'' = CHR ''f''" "lowerByte CHR ''a'' = CHR ''a''"
  "lowerByte CHR ''l'' = CHR ''l''" "lowerByte CHR ''s'' = CHR ''s''"
  "lowerByte CHR ''e'' = CHR ''e''" "lowerByte CHR ''b'' = CHR ''b''"
  "lowerByte CHR ''n'' = CHR ''n''" "lowerByte CHR ''0'' = CHR ''0''"
  "lowerByte CHR ''1'' = CHR ''1''"
  by (simp_all add: lowerByte_def byteOf_def char_of_def bit_Suc_0_iff)

lemma isASCII_examples:
  "isASCII ''TRUE''" "isASCII ''False''" "isASCII ''1''" "isASCII ''0''" "isASCII ''banana''"
  "isASCII []"
  by (simp_all add: isASCII_def byteOf_def)

text \<open>
  Claim C6. Boolean resolution of \<open>cd\<close>: the value is lower-cased first; the empty
  string, \<open>1\<close> and \<open>true\<close> resolve to true, \<open>0\<close> and \<open>false\<close> to false, anything else is
  \<open>errInvalidCD\<close>. On a value of ASCII bytes the lower-casing maps the letters \<open>A\<close> to
  \<open>Z\<close> and nothing else, whatever the environment, so the comparison ignores case. In
  \<open>parseQuery\<close>: an absent \<open>cd\<close> key leaves the field false; a present key gives the
  field the resolved value; an unresolvable value makes the query fail with
  \<open>errInvalidCD\<close> once the name and the type have passed. And a query is accepted, with
  the resolved value (or false for an absent key) in the field \<open>cd\<close>, whenever its name
  passes, its type is absent or resolves, its \<open>cd\<close> is absent or resolves, and its client
  subnet is absent or parses.
\<close>

theorem cd_resolution:
  "stringToBool e v =
     (if ToLower (unicodeToLower e) v \<in> {[], ''1'', ''true''} then Inr True
      else if ToLower (unicodeToLower e) v \<in> {''0'', ''false''} then Inr False
      else Inl errInvalidCD) \<and>
   (isASCII v \<longrightarrow> ToLower (unicodeToLower e) v = map lowerByte v) \<and>
   (simplify uq ''cd'' = None \<and> parseQuery e uq = Inr q \<longrightarrow> cd q = False) \<and>
   (simplify uq ''cd'' = Some v \<and> parseQuery e uq = Inr q \<longrightarrow> stringToBool e v = Inr (cd q)) \<and>
   (simplify uq ''cd'' = Some v \<and> stringToBool e v = Inl errInvalidCD \<and>
    simplify uq ''name'' = Some nm \<and> nm \<noteq> [] \<and> length nm \<le> 253 \<and>
    (simplify uq ''type'' = None \<or>
     (\<exists>ty t. simplify uq ''type'' = Some ty \<and> stringToRRType e ty = Inr t)) \<longrightarrow>
      parseQuery e uq = Inl errInvalidCD) \<and>
   (isASCII v \<longrightarrow>
      stringToBool e v =
        (if map lowerByte v \<in> {[], ''1'', ''true''} then Inr True
         else if map lowerByte v \<in> {''0'', ''false''} then Inr False
         else Inl errInvalidCD)) \<and>
   (simplify uq ''name'' = Some nm \<and> nm \<noteq> [] \<and> length nm \<le> 253 \<and>
    ((simplify uq ''type'' = None \<and> rrt = 1) \<or>
     (\<exists>ty. simplify uq ''type'' = Some ty \<and> stringToRRType e ty = Inr rrt)) \<and>
    ((simplify uq ''cd'' = None \<and> b = False) \<or>
     (simplify uq ''cd'' = Some v \<and> stringToBool e v = Inr b)) \<and>
    ((simplify uq ''edns_client_subnet'' = None \<and> sn = None) \<or>
     (\<exists>cs ip ipnet. simplify uq ''edns_client_subnet'' = Some cs \<and>
        ParseCIDR cs = Some (ip, ipnet) \<and> sn = Some ipnet)) \<longrightarrow>
      parseQuery e uq = Inr \<lparr>name = nm, rrType = rrt, cd = b, clientSubnet = sn\<rparr>)"
proof (intro conjI impI)
  show "stringToBool e v =
     (if ToLower (unicodeToLower e) v \<in> {[], ''1'', ''true''} then Inr True
      else if ToLower (unicodeToLower e) v \<in> {''0'', ''false''} then Inr False
      else Inl errInvalidCD)"
    by (simp add: stringToBool_def Let_def)
next
  assume "isASCII v"
  then show "ToLower (unicodeToLower e) v = map lowerByte v"
    by (rule ToLower_ASCII)
next
  assume "simplify uq ''cd'' = None \<and> parseQuery e uq = Inr q"
  then show "cd q = False"
    by (auto simp: parseQuery_def Let_def split: option.splits sum.splits if_splits)
next
  assume "simplify uq ''cd'' = Some v \<and> parseQuery e uq = Inr q"
  then show "stringToBool e v = Inr (cd q)"
    by (auto simp: parseQuery_def Let_def split: option.splits sum.splits if_splits)
next
  assume "simplify uq ''cd'' = Some v \<and> stringToBool e v = Inl errInvalidCD \<and>
    simplify uq ''name'' = Some nm \<and> nm \<noteq> [] \<and> length nm \<le> 253 \<and>
    (simplify uq ''type'' = None \<or>
     (\<exists>ty t. simplify uq ''type'' = Some ty \<and> stringToRRType e ty = Inr t))"
  then show "parseQuery e uq = Inl errInvalidCD"
    by (auto simp: parseQuery_def Let_def)
next
  assume "isASCII v"
  then have "ToLower (unicodeToLower e) v = map lowerByte v"
    by (rule ToLower_ASCII)
  then show "stringToBool e v =
        (if map lowerByte v \<in> {[], ''1'', ''true''} then Inr True
         else if map lowerByte v \<in> {''0'', ''false''} then Inr False
         else Inl errInvalidCD)"
    by (simp add: stringToBool_def Let_def)
next
  assume a: "simplify uq ''name'' = Some nm \<and> nm \<noteq> [] \<and> length nm \<le> 253 \<and>
    ((simplify uq ''type'' = None \<and> rrt = 1) \<or>
     (\<exists>ty. simplify uq ''type'' = Some ty \<and> stringToRRType e ty = Inr rrt)) \<and>
    ((simplify uq ''cd'' = None \<and> b = False) \<or>
     (simplify uq ''cd'' = Some v \<and> stringToBool e v = Inr b)) \<and>
    ((simplify uq ''edns_client_subnet'' = None \<and> sn = None) \<or>
     (\<exists>cs ip ipnet. simplify uq ''edns_client_subnet'' = Some cs \<and>
        ParseCIDR cs = Some (ip, ipnet) \<and> sn = Some ipnet))"
  then have nm: "simplify uq ''name'' = Some nm" "nm \<noteq> []" "\<not> 253 < length nm"
    by auto
  from a have ty: "(case simplify uq ''type'' of None \<Rightarrow> Inr 1
                     | Some ty \<Rightarrow> stringToRRType e ty) = Inr rrt"
    by auto
  from a have c: "(case simplify uq ''cd'' of None \<Rightarrow> Inr False
                    | Some c \<Rightarrow> stringToBool e c) = Inr b"
    by auto
  from a have s: "(case simplify uq ''edns_client_subnet'' of
                     None \<Rightarrow> Inr \<lparr>name = nm, rrType = rrt, cd = b, clientSubnet = None\<rparr>
                   | Some cs \<Rightarrow>
                       (case ParseCIDR cs of
                          None \<Rightarrow> Inl errInvalidSubnet
                        | Some (ip, ipnet) \<Rightarrow>
                            Inr \<lparr>name = nm, rrType = rrt, cd = b, clientSubnet = Some ipnet\<rparr>)) =
                  Inr \<lparr>name = nm, rrType = rrt, cd = b, clientSubnet = sn\<rparr>"
    by auto
  show "parseQuery e uq = Inr \<lparr>name = nm, rrType = rrt, cd = b, clientSubnet = sn\<rparr>"
    unfolding parseQuery_def Let_def
    by (simp only: nm ty c s option.case sum.case if_False)
qed

theorem cd_resolution_witness:
  "stringToBool noUpstream ''TRUE'' = Inr True \<and>
   stringToBool noUpstream [] = Inr True \<and>
   stringToBool noUpstream ''1'' = Inr True \<and>
   stringToBool noUpstream ''0'' = Inr False \<and>
   stringToBool noUpstream ''False'' = Inr False \<and>
   stringToBool noUpstream ''banana'' = Inl errInvalidCD \<and>
   parseQuery noUpstream [''name'' \<mapsto> [''example.com''], ''cd'' \<mapsto> [''banana'']] =
     Inl errInvalidCD \<and>
   parseQuery noUpstream [''name'' \<mapsto> [''example.com''], ''cd'' \<mapsto> [''TRUE'']] =
     Inr \<lparr>name = ''example.com'', rrType = 1, cd = True, clientSubnet = None\<rparr> \<and>
   parseQuery noUpstream [''name'' \<mapsto> [''example.com''], ''cd'' \<mapsto> [''1'']] =
     Inr \<lparr>name = ''example.com'', rrType = 1, cd = True, clientSubnet = None\<rparr> \<and>
   parseQuery noUpstream [''name'' \<mapsto> [''example.com''], ''cd'' \<mapsto> []] =
     Inr \<lparr>name = ''example.com'', rrType = 1, cd = True, clientSubnet = None\<rparr> \<and>
   parseQuery noUpstream [''name'' \<mapsto> [''example.com''], ''cd'' \<mapsto> [''0'']] =
     Inr \<lparr>name = ''example.com'', rrType = 1, cd = False, clientSubnet = None\<rparr> \<and>
   parseQuery noUpstream [''name'' \<mapsto> [''example.com''], ''cd'' \<mapsto> [''False'']] =
     Inr \<lparr>name = ''example.com'', rrType = 1, cd = False, clientSubnet = None\<rparr> \<and>
   parseQuery noUpstream [''name'' \<mapsto> [''example.com'']] =
     Inr \<lparr>name = ''example.com'', rrType = 1, cd = False, clientSubnet = None\<rparr>"
proof -
  note t = cd_resolution [where e = noUpstream]
  have 1: "stringToBool noUpstream ''TRUE'' = Inr True"
    using t [where v = "''TRUE''"] by (simp add: isASCII_examples lowerByte_examples)
  have 2: "stringToBool noUpstream [] = Inr True"
    using t [where v = "[]"] by (simp add: isASCII_examples)
  have 3: "stringToBool noUpstream ''1'' = Inr True"
    using t [where v = "''1''"] by (simp add: isASCII_examples lowerByte_examples)
  have 4: "stringToBool noUpstream ''0'' = Inr False"
    using t [where v = "''0''"] by (simp add: isASCII_examples lowerByte_examples)
  have 5: "stringToBool noUpstream ''False'' = Inr False"
    using t [where v = "''False''"] by (simp add: isASCII_examples lowerByte_examples)
  have 6: "stringToBool noUpstream ''banana'' = Inl errInvalidCD"
    using t [where v = "''banana''"] by (simp add: isASCII_examples lowerByte_examples)
  have 7: "parseQuery noUpstream [''name'' \<mapsto> [''example.com''], ''cd'' \<mapsto> [''banana'']] =
     Inl errInvalidCD"
    using t [where v = "''banana''" and nm = "''example.com''"
        and uq = "[''name'' \<mapsto> [''example.com''], ''cd'' \<mapsto> [''banana'']]"] 6
    by (simp add: simplify_def)
  have 8: "parseQuery noUpstream [''name'' \<mapsto> [''example.com''], ''cd'' \<mapsto> [''TRUE'']] =
     Inr \<lparr>name = ''example.com'', rrType = 1, cd = True, clientSubnet = None\<rparr>"
    using t [where v = "''TRUE''" and nm = "''example.com''" and rrt = 1 and b = True
        and sn = None and uq = "[''name'' \<mapsto> [''example.com''], ''cd'' \<mapsto> [''TRUE'']]"] 1
    by (simp add: simplify_def)
  have 9: "parseQuery noUpstream [''name'' \<mapsto> [''example.com''], ''cd'' \<mapsto> [''1'']] =
     Inr \<lparr>name = ''example.com'', rrType = 1, cd = True, clientSubnet = None\<rparr>"
    using t [where v = "''1''" and nm = "''example.com''" and rrt = 1 and b = True
        and sn = None and uq = "[''name'' \<mapsto> [''example.com''], ''cd'' \<mapsto> [''1'']]"] 3
    by (simp add: simplify_def)
  have 10: "parseQuery noUpstream [''name'' \<mapsto> [''example.com''], ''cd'' \<mapsto> []] =
     Inr \<lparr>name = ''example.com'', rrType = 1, cd = True, clientSubnet = None\<rparr>"
    using t [where v = "[]" and nm = "''example.com''" and rrt = 1 and b = True
        and sn = None and uq = "[''name'' \<mapsto> [''example.com''], ''cd'' \<mapsto> []]"] 2
    by (simp add: simplify_def)
  have 11: "parseQuery noUpstream [''name'' \<mapsto> [''example.com''], ''cd'' \<mapsto> [''0'']] =
     Inr \<lparr>name = ''example.com'', rrType = 1, cd = False, clientSubnet = None\<rparr>"
    using t [where v = "''0''" and nm = "''example.com''" and rrt = 1 and b = False
        and sn = None and uq = "[''name'' \<mapsto> [''example.com''], ''cd'' \<mapsto> [''0'']]"] 4
    by (simp add: simplify_def)
  have 12: "parseQuery noUpstream [''name'' \<mapsto> [''example.com''], ''cd'' \<mapsto> [''False'']] =
     Inr \<lparr>name = ''example.com'', rrType = 1, cd = False, clientSubnet = None\<rparr>"
    using t [where v = "''False''" and nm = "''example.com''" and rrt = 1 and b = False
        and sn = None and uq = "[''name'' \<mapsto> [''example.com''], ''cd'' \<mapsto> [''False'']]"] 5
    by (simp add: simplify_def)
  have 13: "parseQuery noUpstream [''name'' \<mapsto> [''example.com'']] =
     Inr \<lparr>name = ''example.com'', rrType = 1, cd = False, clientSubnet = None\<rparr>"
    using t [where nm = "''example.com''" and rrt = 1 and b = False
        and sn = None and uq = "[''name'' \<mapsto> [''example.com'']]"]
    by (simp add: simplify_def)
  from 1 2 3 4 5 6 7 8 9 10 11 12 13 show ?thesis by blast
qed

section \<open>Properties of the handler\<close>

text \<open>
  Claim C4. A query that fails validation leads to no call of the upstream exchange; a
  query that passes leads to exactly one call, with the request built from the query and
  the configured upstream address.
\<close>

theorem Resolve_exchanges:
  "(parseQuery e uq = Inl err \<longrightarrow> exchanges (Resolve e s uq) = []) \<and>
   (parseQuery e uq = Inr q \<longrightarrow>
      exchanges (Resolve e s uq) = [(buildRequest e q, Upstream s)])"
  by (simp add: Resolve_def Let_def split: prod.splits)

text \<open>
  Claim C3. The status of every failure: a validation error is answered with 400 and
  the error's message; an error of the exchange with 424; no reply and no error with
  408; an error of the JSON encoder with 500. In each case the handler's only write is
  the call of \<open>http.Error\<close> with the message of the error.
\<close>

theorem Resolve_failure_status:
  "(parseQuery e uq = Inl err \<longrightarrow>
      reply (Resolve e s uq) = http_Error (Error err) 400) \<and>
   (parseQuery e uq = Inr q \<and> Exchange e (buildRequest e q) (Upstream s) = (fromUp, Some x) \<longrightarrow>
      reply (Resolve e s uq) =
        http_Error (Error (TraceErrorf e ''dns exchange error: %v'' [x])) 424) \<and>
   (parseQuery e uq = Inr q \<and> Exchange e (buildRequest e q) (Upstream s) = (None, None) \<longrightarrow>
      reply (Resolve e s uq) =
        http_Error (Error (TraceErrorf e ''no response from upstream'' [])) 408) \<and>
   (parseQuery e uq = Inr q \<and> Exchange e (buildRequest e q) (Upstream s) = (Some m, None) \<and>
    mapReply e m = Some jr \<and> Marshal e jr = (buf, Some y) \<longrightarrow>
      reply (Resolve e s uq) =
        http_Error (Error (TraceErrorf e ''failed to marshal: %v'' [y])) 500)"
  by (simp add: Resolve_def Let_def StatusBadRequest_def StatusFailedDependency_def
      StatusRequestTimeout_def StatusInternalServerError_def)

lemma parseQuery_example:
  "parseQuery (exampleEnv up js) [''name'' \<mapsto> [''example.com'']] =
     Inr \<lparr>name = ''example.com'', rrType = 1, cd = False, clientSubnet = None\<rparr>"
  by (simp add: parseQuery_def simplify_def Let_def)

lemma parseQuery_no_name:
  "parseQuery (exampleEnv up js) Map.empty = Inl errEmptyName"
  by (simp add: parseQuery_def simplify_def Let_def)

theorem Resolve_exchanges_witness:
  "exchanges (Resolve noUpstream exampleServer Map.empty) = [] \<and>
   exchanges (Resolve noUpstream exampleServer [''name'' \<mapsto> [''example.com'']]) =
     [(buildRequest noUpstream
         \<lparr>name = ''example.com'', rrType = 1, cd = False, clientSubnet = None\<rparr>,
       ''8.8.8.8:53'')]"
proof -
  have 1: "exchanges (Resolve noUpstream exampleServer Map.empty) = []"
    using Resolve_exchanges [of noUpstream Map.empty errEmptyName exampleServer]
    by (simp add: noUpstream_def parseQuery_no_name)
  have 2: "exchanges (Resolve noUpstream exampleServer [''name'' \<mapsto> [''example.com'']]) =
     [(buildRequest noUpstream
         \<lparr>name = ''example.com'', rrType = 1, cd = False, clientSubnet = None\<rparr>,
       ''8.8.8.8:53'')]"
    using Resolve_exchanges [of noUpstream "[''name'' \<mapsto> [''example.com'']]" _ exampleServer
        "\<lparr>name = ''example.com'', rrType = 1, cd = False, clientSubnet = None\<rparr>"]
    by (simp add: noUpstream_def parseQuery_example exampleServer_def)
  from 1 2 show ?thesis by blast
qed

lemma exampleSprintf_formats:
  "exampleSprintf ''dns exchange error: %v'' [''i/o timeout''] = ''dns exchange error: i/o timeout''"
  "exampleSprintf ''no response from upstream'' [] = ''no response from upstream''"
  "exampleSprintf ''failed to marshal: %v'' [''unsupported value''] =
     ''failed to marshal: unsupported value''"
  by simp_all

lemma mapReply_zero_Msg:
  "mapReply e zero_Msg =
     Some \<lparr>Status = 0, TC = False, RD = False, RA = False, AD = False, CD = False,
           json_Question = [], json_Answer = []\<rparr>"
  by (simp add: mapReply_def zero_Msg_def)

theorem Resolve_failure_status_witness:
  "reply (Resolve noUpstream exampleServer Map.empty) = http_Error ''empty name'' 400 \<and>
   reply (Resolve (exampleEnv (None, Some (otherError ''i/o timeout'')) ([], None)) exampleServer
            [''name'' \<mapsto> [''example.com'']]) =
     http_Error ''dns exchange error: i/o timeout'' 424 \<and>
   reply (Resolve noUpstream exampleServer [''name'' \<mapsto> [''example.com'']]) =
     http_Error ''no response from upstream'' 408 \<and>
   reply (Resolve (exampleEnv (Some zero_Msg, None) ([], Some (otherError ''unsupported value'')))
            exampleServer [''name'' \<mapsto> [''example.com'']]) =
     http_Error ''failed to marshal: unsupported value'' 500"
proof -
  let ?uq = "[''name'' \<mapsto> [''example.com'']]"
  let ?q = "\<lparr>name = ''example.com'', rrType = 1, cd = False, clientSubnet = None\<rparr>"
  have 1: "reply (Resolve noUpstream exampleServer Map.empty) = http_Error ''empty name'' 400"
    using Resolve_failure_status [of noUpstream Map.empty errEmptyName exampleServer]
    by (simp add: noUpstream_def parseQuery_no_name)
  have 2: "reply (Resolve (exampleEnv (None, Some (otherError ''i/o timeout'')) ([], None))
            exampleServer ?uq) = http_Error ''dns exchange error: i/o timeout'' 424"
    using Resolve_failure_status
      [of "exampleEnv (None, Some (otherError ''i/o timeout'')) ([], None)" ?uq _ exampleServer ?q
          None "otherError ''i/o timeout''"]
    by (simp add: parseQuery_example) (simp add: exampleEnv_def exampleSprintf_formats)
  have 3: "reply (Resolve noUpstream exampleServer ?uq) =
     http_Error ''no response from upstream'' 408"
    using Resolve_failure_status [of noUpstream ?uq _ exampleServer ?q]
    by (simp add: noUpstream_def parseQuery_example) (simp add: exampleEnv_def exampleSprintf_formats)
  have 4: "reply (Resolve (exampleEnv (Some zero_Msg, None) ([], Some (otherError ''unsupported value'')))
            exampleServer ?uq) = http_Error ''failed to marshal: unsupported value'' 500"
    using Resolve_failure_status
      [of "exampleEnv (Some zero_Msg, None) ([], Some (otherError ''unsupported value''))" ?uq _
          exampleServer ?q _ _ zero_Msg
          "\<lparr>Status = 0, TC = False, RD = False, RA = False, AD = False, CD = False,
            json_Question = [], json_Answer = []\<rparr>" "[]" "otherError ''unsupported value''"]
    by (simp add: parseQuery_example mapReply_zero_Msg)
       (simp add: exampleEnv_def exampleSprintf_formats)
  from 1 2 3 4 show ?thesis by blast
qed

section \<open>Properties of the request builder\<close>

text \<open>
  Claim C5. A query with a client subnet gets exactly one additional record in the
  request, an \<open>OPT\<close> record with exactly one option, the client-subnet option; its
  family is 1 when \<open>To4\<close> of the subnet's address is not nil and 2 otherwise, and its
  scope netmask is 0. A query without a client subnet gets no additional record.
\<close>

theorem buildRequest_subnet_option:
  "(clientSubnet q = None \<longrightarrow> Extra (buildRequest e q) = []) \<and>
   (clientSubnet q = Some subnet \<longrightarrow>
      (\<exists>opt es. Extra (buildRequest e q) = [RR_OPT opt] \<and> Option opt = [es] \<and>
         Code es = EDNS0SUBNET \<and>
         Family es = (if To4 (IP subnet) = None then 2 else 1) \<and>
         SourceScope es = 0))"
  by (auto simp: buildRequest_def SetQuestion_def zero_Msg_def zero_OPT_def
      zero_EDNS0_SUBNET_def Let_def split: prod.splits option.splits)

theorem buildRequest_subnet_option_witness:
  "(\<exists>opt es.
      Extra (buildRequest noUpstream
        \<lparr>name = ''example.com'', rrType = 1, cd = False,
         clientSubnet = Some \<lparr>IP = [1, 2, 3, 0], Mask = [255, 255, 255, 0]\<rparr>\<rparr>) = [RR_OPT opt] \<and>
      Option opt = [es] \<and> Code es = 8 \<and> Family es = 1 \<and> SourceScope es = 0) \<and>
   (\<exists>opt es.
      Extra (buildRequest noUpstream
        \<lparr>name = ''example.com'', rrType = 1, cd = False,
         clientSubnet = Some \<lparr>IP = [0x20, 1, 0xd, 0xb8, 0, 0, 0, 0, 0, 0, 0, 0, 0, 0, 0, 0],
           Mask = [255, 255, 255, 255, 0, 0, 0, 0, 0, 0, 0, 0, 0, 0, 0, 0]\<rparr>\<rparr>) = [RR_OPT opt] \<and>
      Option opt = [es] \<and> Code es = 8 \<and> Family es = 2 \<and> SourceScope es = 0) \<and>
   Extra (buildRequest noUpstream
        \<lparr>name = ''example.com'', rrType = 1, cd = False, clientSubnet = None\<rparr>) = []"
proof (intro conjI)
  show "\<exists>opt es.
      Extra (buildRequest noUpstream
        \<lparr>name = ''example.com'', rrType = 1, cd = False,
         clientSubnet = Some \<lparr>IP = [1, 2, 3, 0], Mask = [255, 255, 255, 0]\<rparr>\<rparr>) = [RR_OPT opt] \<and>
      Option opt = [es] \<and> Code es = 8 \<and> Family es = 1 \<and> SourceScope es = 0"
    using buildRequest_subnet_option [of
        "\<lparr>name = ''example.com'', rrType = 1, cd = False,
         clientSubnet = Some \<lparr>IP = [1, 2, 3, 0], Mask = [255, 255, 255, 0]\<rparr>\<rparr>"
        noUpstream "\<lparr>IP = [1, 2, 3, 0], Mask = [255, 255, 255, 0]\<rparr>"]
    by (simp add: To4_def IPv4len_def EDNS0SUBNET_def)
next
  show "\<exists>opt es.
      Extra (buildRequest noUpstream
        \<lparr>name = ''example.com'', rrType = 1, cd = False,
         clientSubnet = Some \<lparr>IP = [0x20, 1, 0xd, 0xb8, 0, 0, 0, 0, 0, 0, 0, 0, 0, 0, 0, 0],
           Mask = [255, 255, 255, 255, 0, 0, 0, 0, 0, 0, 0, 0, 0, 0, 0, 0]\<rparr>\<rparr>) = [RR_OPT opt] \<and>
      Option opt = [es] \<and> Code es = 8 \<and> Family es = 2 \<and> SourceScope es = 0"
    using buildRequest_subnet_option [of
        "\<lparr>name = ''example.com'', rrType = 1, cd = False,
         clientSubnet = Some \<lparr>IP = [0x20, 1, 0xd, 0xb8, 0, 0, 0, 0, 0, 0, 0, 0, 0, 0, 0, 0],
           Mask = [255, 255, 255, 255, 0, 0, 0, 0, 0, 0, 0, 0, 0, 0, 0, 0]\<rparr>\<rparr>"
        noUpstream "\<lparr>IP = [0x20, 1, 0xd, 0xb8, 0, 0, 0, 0, 0, 0, 0, 0, 0, 0, 0, 0],
           Mask = [255, 255, 255, 255, 0, 0, 0, 0, 0, 0, 0, 0, 0, 0, 0, 0]\<rparr>"]
    by (simp add: To4_def IPv4len_def IPv6len_def isZeros_def EDNS0SUBNET_def)
next
  show "Extra (buildRequest noUpstream
        \<lparr>name = ''example.com'', rrType = 1, cd = False, clientSubnet = None\<rparr>) = []"
    using buildRequest_subnet_option [of
        "\<lparr>name = ''example.com'', rrType = 1, cd = False, clientSubnet = None\<rparr>" noUpstream]
    by simp
qed

section \<open>Properties of the response mapper\<close>

lemma questions_loop_append:
  "questions_loop qs jr =
     jr\<lparr>json_Question := json_Question jr @
        map (\<lambda>q. \<lparr>json_Name = q_Name q, json_Type = Qtype q, json_TTL = 0, json_Data = []\<rparr>) qs\<rparr>"
  by (induction qs arbitrary: jr) simp_all

lemma answers_loop_append:
  assumes "\<forall>a \<in> set answers. length (Hdr_String e (RR_header a)) \<le> length (RR_String e a)"
  shows "answers_loop e answers jr =
     Some (jr\<lparr>json_Answer := json_Answer jr @
        map (\<lambda>a. \<lparr>json_Name = hdr_Name (RR_header a), json_Type = hdr_Rrtype (RR_header a),
                  json_TTL = hdr_Ttl (RR_header a),
                  json_Data = drop (length (Hdr_String e (RR_header a))) (RR_String e a)\<rparr>)
          answers\<rparr>)"
  using assms
  by (induction answers arbitrary: jr) (simp_all add: answerRR_def Let_def)

text \<open>
  Claim C8. For a reply whose answer records all render as their header's rendering
  followed by the record's data, the mapped response has the reply code as \<open>Status\<close>,
  the five flags of the reply header, one question entry per question and one answer
  entry per answer record, in the order of the reply; an answer entry has the name, type
  and TTL of the record's header, and its data is what follows the header's rendering
  in the record's rendering.
\<close>

theorem mapReply_well_formed:
  assumes "\<forall>a \<in> set (Answer m). \<exists>d. RR_String e a = Hdr_String e (RR_header a) @ d"
  shows "\<exists>jr. mapReply e m = Some jr \<and>
     Status jr = Rcode m \<and> TC jr = Truncated m \<and> RD jr = RecursionDesired m \<and>
     RA jr = RecursionAvailable m \<and> AD jr = AuthenticatedData m \<and>
     CD jr = CheckingDisabled m \<and>
     list_all2 (\<lambda>q jq. json_Name jq = q_Name q \<and> json_Type jq = Qtype q)
       (Question m) (json_Question jr) \<and>
     list_all2 (\<lambda>a ja. json_Name ja = hdr_Name (RR_header a) \<and>
                  json_Type ja = hdr_Rrtype (RR_header a) \<and>
                  json_TTL ja = hdr_Ttl (RR_header a) \<and>
                  RR_String e a = Hdr_String e (RR_header a) @ json_Data ja)
       (Answer m) (json_Answer jr)"
proof -
  have len: "\<forall>a \<in> set (Answer m). length (Hdr_String e (RR_header a)) \<le> length (RR_String e a)"
    using assms by auto
  have data: "\<forall>a \<in> set (Answer m).
      RR_String e a =
        Hdr_String e (RR_header a) @ drop (length (Hdr_String e (RR_header a))) (RR_String e a)"
    using assms by auto
  show ?thesis
    unfolding mapReply_def Let_def
    by (simp add: questions_loop_append answers_loop_append [OF len] list_all2_map2
        list_all2_same) (use data in blast)
qed

theorem mapReply_well_formed_witness:
  "(\<exists>d. RR_String noUpstream (hd (Answer exampleReply)) =
         Hdr_String noUpstream (RR_header (hd (Answer exampleReply))) @ d) \<and>
   mapReply noUpstream exampleReply =
     Some \<lparr>Status = 0, TC = False, RD = True, RA = True, AD = False, CD = False,
       json_Question =
         [\<lparr>json_Name = ''example.com.'', json_Type = 1, json_TTL = 0, json_Data = []\<rparr>],
       json_Answer =
         [\<lparr>json_Name = ''example.com.'', json_Type = 1, json_TTL = 300,
           json_Data = ''93.184.216.34''\<rparr>]\<rparr>"
proof -
  have wf: "\<forall>a \<in> set (Answer exampleReply).
      \<exists>d. RR_String noUpstream a = Hdr_String noUpstream (RR_header a) @ d"
    by (simp add: exampleReply_def zero_Msg_def RR_String_def RR_header_def noUpstream_def
        exampleEnv_def)
  from mapReply_well_formed [OF wf] obtain jr where
    jr: "mapReply noUpstream exampleReply = Some jr" by blast
  have "mapReply noUpstream exampleReply =
     Some \<lparr>Status = 0, TC = False, RD = True, RA = True, AD = False, CD = False,
       json_Question =
         [\<lparr>json_Name = ''example.com.'', json_Type = 1, json_TTL = 0, json_Data = []\<rparr>],
       json_Answer =
         [\<lparr>json_Name = ''example.com.'', json_Type = 1, json_TTL = 300,
           json_Data = ''93.184.216.34''\<rparr>]\<rparr>"
    by (simp add: mapReply_def exampleReply_def zero_Msg_def answerRR_def RR_String_def
        RR_header_def noUpstream_def exampleEnv_def Let_def)
  moreover have "\<exists>d. RR_String noUpstream (hd (Answer exampleReply)) =
         Hdr_String noUpstream (RR_header (hd (Answer exampleReply))) @ d"
    using wf by (simp add: exampleReply_def zero_Msg_def)
  ultimately show ?thesis using jr by blast
qed

section \<open>Type resolution\<close>

lemmas ParseInt_eval =
  ParseInt_def ParseUint_def isDigit_def digitVal_def byteOf_def maxUint64_def Let_def

lemma ParseInt_examples:
  "ParseInt ''1'' 16 = (1, None)"
  "ParseInt ''32767'' 16 = (32767, None)"
  "ParseInt ''0'' 16 = (0, None)"
  "ParseInt ''32768'' 16 = (32767, Some ErrRange)"
  "ParseInt ''40000'' 16 = (32767, Some ErrRange)"
  "ParseInt ''65535'' 16 = (32767, Some ErrRange)"
  "ParseInt ''65536'' 16 = (32767, Some ErrRange)"
  "ParseInt ''mx'' 16 = (0, Some ErrSyntax)"
  "ParseInt ''bogus'' 16 = (0, Some ErrSyntax)"
  by (simp_all add: ParseInt_eval)

lemma upperByte_examples:
  "upperByte CHR ''m'' = CHR ''M''" "upperByte CHR ''x'' = CHR ''X''"
  "upperByte CHR ''b'' = CHR ''B''" "upperByte CHR ''o'' = CHR ''O''"
  "upperByte CHR ''g'' = CHR ''G''" "upperByte CHR ''u'' = CHR ''U''"
  "upperByte CHR ''s'' = CHR ''S''"
  "upperByte CHR ''0'' = CHR ''0''" "upperByte CHR ''2'' = CHR ''2''"
  "upperByte CHR ''3'' = CHR ''3''" "upperByte CHR ''4'' = CHR ''4''"
  "upperByte CHR ''5'' = CHR ''5''" "upperByte CHR ''6'' = CHR ''6''"
  "upperByte CHR ''7'' = CHR ''7''" "upperByte CHR ''8'' = CHR ''8''"
  by (simp_all add: upperByte_def byteOf_def char_of_def bit_Suc_0_iff)

lemma ToUpper_examples:
  "ToUpper uni ''mx'' = ''MX''" "ToUpper uni ''bogus'' = ''BOGUS''"
  "ToUpper uni ''32768'' = ''32768''" "ToUpper uni ''40000'' = ''40000''"
  "ToUpper uni ''65535'' = ''65535''" "ToUpper uni ''65536'' = ''65536''"
  by (simp_all add: ToUpper_def isASCII_def byteOf_def upperByte_examples)

text \<open>
  A number is returned only from the branch where \<open>ParseInt\<close> has succeeded, and
  \<open>ParseInt\<close> with bit size 16 succeeds only on the range of a signed 16-bit integer.
\<close>

lemma ParseInt_16_range:
  assumes "ParseInt s 16 = (i, None)"
  shows "- 32768 \<le> i \<and> i \<le> 32767"
proof (cases "s = []")
  case True
  with assms show ?thesis by (simp add: ParseInt_def)
next
  case False
  obtain un err where u:
    "ParseUint (if hd s = CHR ''+'' \<or> hd s = CHR ''-'' then tl s else s) 16 = (un, err)"
    by (cases "ParseUint (if hd s = CHR ''+'' \<or> hd s = CHR ''-'' then tl s else s) 16") auto
  from assms False u show ?thesis
    by (auto simp: ParseInt_def Let_def split: if_splits)
qed

lemma stringToRRType_numeric_range:
  assumes "stringToRRType e s = Inr t"
  shows "(\<exists>i. ParseInt s 16 = (i, None) \<and> 1 \<le> i \<and> i \<le> 32767 \<and> t = of_int i) \<or>
         (snd (ParseInt s 16) \<noteq> None \<and> StringToType e (ToUpper (unicodeToUpper e) s) = Some t)"
proof (cases "ParseInt s 16")
  case (Pair i err)
  show ?thesis
  proof (cases err)
    case None
    with Pair ParseInt_16_range [of s i] assms show ?thesis
      by (auto simp: stringToRRType_def split: if_splits)
  next
    case (Some x)
    with Pair assms show ?thesis
      by (auto simp: stringToRRType_def split: option.splits)
  qed
qed

text \<open>
  Claim C2. Type resolution at the ends of the documented range. The numbers 1 and 32767
  resolve to themselves and 0 is \<open>errIntOutOfRange\<close>; a name is looked up in the table
  in upper case, an unknown one is \<open>errUnknownType\<close>. But \<open>ParseInt\<close> is called with
  bit size 16, so it reports a range error for every number above 32767: the function
  then looks the digits up in the name table and returns \<open>errUnknownType\<close> for 32768,
  40000 and 65535, which lie in the range \<open>[1, 65535]\<close> that the comment of the function
  documents, and for 65536, which is a number out of that range and not an unknown name.
\<close>

theorem stringToRRType_at_the_bounds:
  "stringToRRType noUpstream ''1'' = Inr 1 \<and>
   stringToRRType noUpstream ''32767'' = Inr 32767 \<and>
   stringToRRType noUpstream ''0'' = Inl errIntOutOfRange \<and>
   stringToRRType noUpstream ''mx'' = Inr 15 \<and>
   stringToRRType noUpstream ''bogus'' = Inl errUnknownType \<and>
   stringToRRType noUpstream ''32768'' = Inl errUnknownType \<and>
   stringToRRType noUpstream ''40000'' = Inl errUnknownType \<and>
   stringToRRType noUpstream ''65535'' = Inl errUnknownType \<and>
   stringToRRType noUpstream ''65536'' = Inl errUnknownType"
  by (simp add: stringToRRType_def ParseInt_examples ToUpper_examples noUpstream_def
      exampleEnv_def exampleTypes_def)

section \<open>Properties of ParseCIDR\<close>

lemma length_CIDRMask_loop: "length (CIDRMask_loop l n) = l"
  by (induction l arbitrary: n) simp_all

lemma length_CIDRMask:
  assumes "0 \<le> n" and "n \<le> bits" and "bits = 32 \<or> bits = 128"
  shows "length (CIDRMask n bits) = nat (bits div 8)"
  using assms by (auto simp: CIDRMask_def IPv4len_def IPv6len_def length_CIDRMask_loop)

lemma parseIPv4Fields_loop_length:
  "parseIPv4Fields_loop s i prev val pos digLen flds = Some r \<Longrightarrow> length r = length flds"
  by (induction s i prev val pos digLen flds rule: parseIPv4Fields_loop.induct)
     (auto simp: Let_def split: if_splits)

lemma parseIPv4_Some:
  assumes "parseIPv4 s = Some a"
  shows "Is4 a \<and> Zone a = [] \<and> length (As16 a) = 16 \<and> take 12 (As16 a) = v4InV6Prefix"
proof -
  from assms obtain flds where f: "parseIPv4Fields s = Some flds" and a: "a = AddrFrom4 flds"
    by (auto simp: parseIPv4_def)
  from f have "length flds = 4"
    using parseIPv4Fields_loop_length [of s 0 "CHR ''.''" 0 0 0 "[0, 0, 0, 0]" flds]
    by (simp add: parseIPv4Fields_def)
  with a show ?thesis
    by (simp add: AddrFrom4_def v4InV6Prefix_def)
qed

lemma parseIPv6_loop_length:
  "parseIPv6_loop i s ip ellipsis = Some (i', s', ip', ellipsis') \<Longrightarrow> length ip' = length ip"
proof (induction "16 - i" arbitrary: i s ip ellipsis rule: less_induct)
  case less
  have IH: "\<And>j s2 ip2 e2. i < j \<Longrightarrow> i < 16 \<Longrightarrow>
      parseIPv6_loop j s2 ip2 e2 = Some (i', s', ip', ellipsis') \<Longrightarrow>
      length ip' = length ip2"
    by (rule less.hyps) auto
  from less.prems show ?case
    apply (subst (asm) parseIPv6_loop.simps)
    apply (auto simp: Let_def split: if_splits option.splits prod.splits)
    apply (drule IH [rotated 2]; simp)+
    done
qed

lemma length_fold_update:
  "length (fold (\<lambda>j a. a[f j := g j a]) js ip) = length ip"
  by (induction js arbitrary: ip) simp_all

lemma length_expandEllipsis: "length (expandEllipsis i ellipsis ip) = length ip"
  by (simp add: expandEllipsis_def Let_def length_fold_update)

lemma parseIPv6_Some:
  assumes "parseIPv6 s = Some a"
  shows "\<not> Is4 a \<and> length (As16 a) = 16"
  using assms
  by (auto simp: parseIPv6_def Let_def length_expandEllipsis
      split: option.splits prod.splits if_splits dest!: parseIPv6_loop_length)

lemma ParseAddr_scan_Some:
  "ParseAddr_scan s cs = Some a \<Longrightarrow>
     length (As16 a) = 16 \<and> (Is4 a \<longrightarrow> take 12 (As16 a) = v4InV6Prefix)"
  by (induction cs) (auto split: if_splits dest: parseIPv4_Some parseIPv6_Some)

lemma ParseAddr_Some:
  "ParseAddr s = Some a \<Longrightarrow>
     length (As16 a) = 16 \<and> (Is4 a \<longrightarrow> take 12 (As16 a) = v4InV6Prefix)"
  unfolding ParseAddr_def by (rule ParseAddr_scan_Some)

lemma IP_Mask_v4:
  assumes "length ip = 16" and "take 12 ip = v4InV6Prefix" and "length m = 4"
  shows "IP_Mask ip m = map2 (\<lambda>b m. b AND m) (drop 12 ip) m"
  using assms by (simp add: IP_Mask_def IPv4len_def IPv6len_def Let_def)

lemma IP_Mask_v6:
  assumes "length ip = 16" and "length m = 16"
  shows "IP_Mask ip m = map2 (\<lambda>b m. b AND m) ip m"
  using assms by (simp add: IP_Mask_def IPv4len_def IPv6len_def Let_def)

text \<open>
  The shape of every result of \<open>ParseCIDR\<close>: the mask is \<open>CIDRMask n bits\<close> for the prefix
  length \<open>n\<close> read after the slash and \<open>bits\<close> the width of the address family, and the
  network address is the address as written (its last four bytes for IPv4), byte by byte
  AND the mask.
\<close>

lemma ParseCIDR_Some:
  assumes "ParseCIDR s = Some (ip, ipnet)"
  shows "\<exists>n bits. (bits = 32 \<or> bits = 128) \<and> 0 \<le> n \<and> n \<le> bits \<and>
           n = int (fst (dtoi (tl (dropWhile (\<lambda>c. c \<noteq> CHR ''/'') s)))) \<and>
           Mask ipnet = CIDRMask n bits \<and> length (Mask ipnet) = nat (bits div 8) \<and>
           length ip = 16 \<and>
           IP ipnet = map2 (\<lambda>b m. b AND m) (if bits = 32 then drop 12 ip else ip) (Mask ipnet) \<and>
           length (IP ipnet) = length (Mask ipnet)"
proof -
  let ?msk = "tl (dropWhile (\<lambda>c. c \<noteq> CHR ''/'') s)"
  from assms obtain a n i ok where
    a: "ParseAddr (takeWhile (\<lambda>c. c \<noteq> CHR ''/'') s) = Some a" and
    d: "dtoi ?msk = (n, i, ok)" and
    n: "int n \<le> BitLen a" and
    ip: "ip = As16 a" and
    net: "ipnet = \<lparr>IP = IP_Mask (As16 a) (CIDRMask (int n) (BitLen a)),
                   Mask = CIDRMask (int n) (BitLen a)\<rparr>"
    by (auto simp: ParseCIDR_def Let_def split: if_splits option.splits prod.splits)
  from ParseAddr_Some [OF a] have l16: "length (As16 a) = 16"
    and pre: "Is4 a \<Longrightarrow> take 12 (As16 a) = v4InV6Prefix" by auto
  have bits: "BitLen a = 32 \<or> BitLen a = 128" by (simp add: BitLen_def)
  have lm: "length (CIDRMask (int n) (BitLen a)) = nat (BitLen a div 8)"
    using n bits by (intro length_CIDRMask) auto
  show ?thesis
  proof (cases "Is4 a")
    case True
    then have b: "BitLen a = 32" by (simp add: BitLen_def)
    with lm have l4: "length (CIDRMask (int n) 32) = 4" by simp
    have "IP_Mask (As16 a) (CIDRMask (int n) 32) =
            map2 (\<lambda>b m. b AND m) (drop 12 (As16 a)) (CIDRMask (int n) 32)"
      using l16 pre [OF True] l4 by (rule IP_Mask_v4)
    with b n d ip net l4 l16 show ?thesis
      by (intro exI [of _ "int n"] exI [of _ 32]) simp
  next
    case False
    then have b: "BitLen a = 128" by (simp add: BitLen_def)
    with lm have l: "length (CIDRMask (int n) 128) = 16" by simp
    have "IP_Mask (As16 a) (CIDRMask (int n) 128) =
            map2 (\<lambda>b m. b AND m) (As16 a) (CIDRMask (int n) 128)"
      using l16 l by (rule IP_Mask_v6)
    with b n d ip net l l16 show ?thesis
      by (intro exI [of _ "int n"] exI [of _ 128]) simp
  qed
qed

section \<open>The bits of a mask\<close>

lemma ff_mask: "(0xff :: byte) = mask 8"
  by (simp add: mask_eq_exp_minus_1)

lemma bit_ff: "bit (0xff :: byte) j \<longleftrightarrow> j < 8"
  unfolding ff_mask by (simp add: bit_mask_iff)

lemma bit_head_mask:
  assumes "n < 8" and "k < 8"
  shows "bit (NOT (drop_bit n (0xff :: byte))) (7 - k) \<longleftrightarrow> k < n"
  unfolding ff_mask using assms by (auto simp: bit_not_iff bit_drop_bit_eq bit_mask_iff)

text \<open>Bit \<open>k\<close> of a mask, counted from the left, is set exactly when \<open>k\<close> is below the
  prefix length.\<close>

lemma CIDRMask_loop_bit:
  "k < 8 * l \<Longrightarrow> bit (CIDRMask_loop l n ! (k div 8)) (7 - k mod 8) \<longleftrightarrow> k < n"
proof (induction l arbitrary: n k)
  case 0
  then show ?case by simp
next
  case (Suc l)
  show ?case
  proof (cases "k < 8")
    case True
    then have "7 - k < 8" by simp
    then have "bit (0xff :: byte) (7 - k)" by (simp only: bit_ff)
    with True show ?thesis
      using bit_head_mask [of n k] by (cases "8 \<le> n") auto
  next
    case False
    then obtain k' where k': "k = k' + 8" by (metis add.commute le_add_diff_inverse not_less)
    with Suc.prems have lt: "k' < 8 * l" by simp
    have d: "(k' + 8) div 8 = Suc (k' div 8)" by simp
    show ?thesis
      using Suc.IH [OF lt, of "n - 8"] Suc.IH [OF lt, of 0]
      by (auto simp: k' d)
  qed
qed

lemma CIDRMask_bit:
  assumes "0 \<le> n" and "n \<le> bits" and "bits = 32 \<or> bits = 128" and "int k < bits"
  shows "bit (CIDRMask n bits ! (k div 8)) (7 - k mod 8) \<longleftrightarrow> int k < n"
proof -
  have "k < 8 * nat (bits div 8)" using assms by auto
  from CIDRMask_loop_bit [OF this, of "nat n"] assms show ?thesis
    by (auto simp: CIDRMask_def IPv4len_def IPv6len_def)
qed

lemma CIDRMask_loop_zero: "CIDRMask_loop l 0 = replicate l 0"
  by (induction l) simp_all

lemma leadingOnes_head_mask:
  assumes "n < 8"
  shows "NOT (drop_bit n (0xff :: byte)) \<noteq> 0xff \<and>
         leadingOnes k (NOT (drop_bit n (0xff :: byte))) = (k + int n, 0)"
proof -
  from assms have "n \<in> {0, 1, 2, 3, 4, 5, 6, 7}" by auto
  then show ?thesis
    by (elim insertE emptyE) (simp_all add: leadingOnes.simps)
qed

lemma simpleMaskLength_from_CIDRMask_loop:
  "n \<le> 8 * l \<Longrightarrow> simpleMaskLength_from k (CIDRMask_loop l n) = k + int n"
proof (induction l arbitrary: n k)
  case 0
  then show ?case by simp
next
  case (Suc l)
  show ?case
  proof (cases "8 \<le> n")
    case True
    with Suc.prems have "n - 8 \<le> 8 * l" by simp
    from Suc.IH [OF this, of "k + 8"] True show ?thesis by simp
  next
    case False
    then have "n < 8" by simp
    from leadingOnes_head_mask [OF this, of k] False show ?thesis
      by (simp add: CIDRMask_loop_zero list_ex_iff)
  qed
qed

text \<open>\<open>Size\<close> of a mask made by \<open>CIDRMask\<close> returns the prefix length and the width.\<close>

lemma Size_CIDRMask:
  assumes "0 \<le> n" and "n \<le> bits" and "bits = 32 \<or> bits = 128"
  shows "Size (CIDRMask n bits) = (n, bits)"
proof -
  have "nat n \<le> 8 * nat (bits div 8)" using assms by auto
  from simpleMaskLength_from_CIDRMask_loop [OF this, of 0] assms show ?thesis
    by (auto simp: Size_def simpleMaskLength_def CIDRMask_def IPv4len_def IPv6len_def
        length_CIDRMask_loop Let_def)
qed

section \<open>Worked examples of ParseCIDR\<close>

lemma CIDRMask_loop_numeral:
  "CIDRMask_loop (numeral k) n =
     (if n \<ge> 8 then 0xff # CIDRMask_loop (pred_numeral k) (n - 8)
      else NOT (drop_bit n (0xff :: byte)) # CIDRMask_loop (pred_numeral k) 0)"
  by (simp add: numeral_eq_Suc)

lemma CIDRMask_24_32: "CIDRMask 24 32 = [255, 255, 255, 0]"
  by (simp add: CIDRMask_def IPv4len_def IPv6len_def CIDRMask_loop_numeral)

lemma parseIPv4Fields_examples:
  "parseIPv4Fields ''1.2.3.4'' = Some [1, 2, 3, 4]"
  "parseIPv4Fields ''1.2.3.0'' = Some [1, 2, 3, 0]"
  by (simp_all add: parseIPv4Fields_def isDigit_def digitVal_def byteOf_def Let_def
      eval_nat_numeral)

lemma dtoi_24: "dtoi ''24'' = (24, 2, True)"
  by (simp add: dtoi_def isDigit_def digitVal_def byteOf_def big_def Let_def)

lemma ParseCIDR_examples:
  "ParseCIDR ''1.2.3.4/24'' =
     Some ([0, 0, 0, 0, 0, 0, 0, 0, 0, 0, 255, 255, 1, 2, 3, 4],
           \<lparr>IP = [1, 2, 3, 0], Mask = [255, 255, 255, 0]\<rparr>)"
  "ParseCIDR ''1.2.3.0/24'' =
     Some ([0, 0, 0, 0, 0, 0, 0, 0, 0, 0, 255, 255, 1, 2, 3, 0],
           \<lparr>IP = [1, 2, 3, 0], Mask = [255, 255, 255, 0]\<rparr>)"
  by (simp_all add: ParseCIDR_def ParseAddr_def parseIPv4_def parseIPv4Fields_examples dtoi_24
      BitLen_def AddrFrom4_def CIDRMask_24_32 IP_Mask_def v4InV6Prefix_def IPv4len_def
      IPv6len_def Let_def)

lemma parseQuery_subnet_examples:
  "parseQuery noUpstream
     [''name'' \<mapsto> [''example.com''], ''edns_client_subnet'' \<mapsto> [''1.2.3.4/24'']] =
   Inr \<lparr>name = ''example.com'', rrType = 1, cd = False,
        clientSubnet = Some \<lparr>IP = [1, 2, 3, 0], Mask = [255, 255, 255, 0]\<rparr>\<rparr>"
  "parseQuery noUpstream
     [''name'' \<mapsto> [''example.com''], ''edns_client_subnet'' \<mapsto> [''1.2.3.0/24'']] =
   Inr \<lparr>name = ''example.com'', rrType = 1, cd = False,
        clientSubnet = Some \<lparr>IP = [1, 2, 3, 0], Mask = [255, 255, 255, 0]\<rparr>\<rparr>"
  by (simp_all add: parseQuery_def simplify_def Let_def ParseCIDR_examples)

section \<open>The client subnet in the request\<close>

lemma buildRequest_option:
  assumes "clientSubnet q = Some subnet"
  shows "Extra (buildRequest e q) =
     [RR_OPT \<lparr>Hdr = \<lparr>hdr_Name = ''.'', hdr_Rrtype = TypeOPT, hdr_Class = 0, hdr_Ttl = 0,
                      hdr_Rdlength = 0\<rparr>,
        Option = [\<lparr>Code = EDNS0SUBNET,
                   Family = (case To4 (IP subnet) of Some ipv4 \<Rightarrow> 1 | None \<Rightarrow> 2),
                   SourceNetmask = of_int (snd (Size (Mask subnet))),
                   SourceScope = 0,
                   Address = (case To4 (IP subnet) of Some ipv4 \<Rightarrow> ipv4 | None \<Rightarrow> IP subnet)\<rparr>]\<rparr>]"
  using assms
  by (simp add: buildRequest_def SetQuestion_def zero_Msg_def zero_OPT_def zero_RR_Header_def
      zero_EDNS0_SUBNET_def Let_def split: prod.splits option.splits)

lemma parseQuery_subnet:
  assumes "parseQuery e uq = Inr q" and "simplify uq ''edns_client_subnet'' = Some s"
  shows "\<exists>ip ipnet. ParseCIDR s = Some (ip, ipnet) \<and> clientSubnet q = Some ipnet"
  using assms
  by (auto simp: parseQuery_def Let_def split: option.splits sum.splits if_splits)

lemma nth_map2_AND:
  assumes "j < length xs" and "j < length ys"
  shows "bit (map2 (\<lambda>b m. b AND m) xs ys ! j) i \<longleftrightarrow> bit (xs ! j) i \<and> bit ((ys ! j) :: byte) i"
  using assms by (simp add: bit_and_iff)

text \<open>
  Claim C10. The address sent is the network address, not the address as written. For a
  query that passes validation with a client subnet \<open>s\<close>: \<open>ParseCIDR\<close> accepts \<open>s\<close> with
  prefix length \<open>n\<close> (the number after the slash) in a family of \<open>bits\<close> bits; the query
  keeps the network, whose address has, counted from the left, the bits of the address
  as written below position \<open>n\<close> and zeros from position \<open>n\<close> on; and the option in the
  request carries that network address (in its 4-byte form when it has one).
\<close>

theorem client_subnet_address_is_masked:
  assumes "parseQuery e uq = Inr q" and "simplify uq ''edns_client_subnet'' = Some s"
  shows "\<exists>ip ipnet n bits opt es.
     ParseCIDR s = Some (ip, ipnet) \<and> clientSubnet q = Some ipnet \<and>
     (bits = 32 \<or> bits = 128) \<and> 0 \<le> n \<and> n \<le> bits \<and>
     n = int (fst (dtoi (tl (dropWhile (\<lambda>c. c \<noteq> CHR ''/'') s)))) \<and>
     length (IP ipnet) = nat (bits div 8) \<and>
     (\<forall>k. int k < bits \<longrightarrow>
        (bit (IP ipnet ! (k div 8)) (7 - k mod 8) \<longleftrightarrow>
           int k < n \<and> bit ((if bits = 32 then drop 12 ip else ip) ! (k div 8)) (7 - k mod 8))) \<and>
     Extra (buildRequest e q) = [RR_OPT opt] \<and> Option opt = [es] \<and>
     Address es = (case To4 (IP ipnet) of Some ipv4 \<Rightarrow> ipv4 | None \<Rightarrow> IP ipnet)"
proof -
  from parseQuery_subnet [OF assms] obtain ip ipnet where
    p: "ParseCIDR s = Some (ip, ipnet)" and c: "clientSubnet q = Some ipnet" by blast
  from ParseCIDR_Some [OF p] obtain n bits where
    b: "bits = 32 \<or> bits = 128" and n0: "0 \<le> n" and nb: "n \<le> bits" and
    nd: "n = int (fst (dtoi (tl (dropWhile (\<lambda>c. c \<noteq> CHR ''/'') s))))" and
    m: "Mask ipnet = CIDRMask n bits" and lm: "length (Mask ipnet) = nat (bits div 8)" and
    lip: "length ip = 16" and
    i: "IP ipnet = map2 (\<lambda>b m. b AND m) (if bits = 32 then drop 12 ip else ip) (Mask ipnet)" and
    li: "length (IP ipnet) = length (Mask ipnet)"
    by blast
  let ?lit = "if bits = 32 then drop 12 ip else ip"
  have llit: "length ?lit = nat (bits div 8)" using b lip by auto
  have bits: "\<forall>k. int k < bits \<longrightarrow>
        (bit (IP ipnet ! (k div 8)) (7 - k mod 8) \<longleftrightarrow>
           int k < n \<and> bit (?lit ! (k div 8)) (7 - k mod 8))"
  proof (intro allI impI)
    fix k assume k: "int k < bits"
    then have j: "k div 8 < nat (bits div 8)" using b by auto
    have "bit (IP ipnet ! (k div 8)) (7 - k mod 8) \<longleftrightarrow>
            bit (?lit ! (k div 8)) (7 - k mod 8) \<and> bit (Mask ipnet ! (k div 8)) (7 - k mod 8)"
      unfolding i using j llit lm by (intro nth_map2_AND) simp_all
    also have "bit (Mask ipnet ! (k div 8)) (7 - k mod 8) \<longleftrightarrow> int k < n"
      unfolding m using n0 nb b k by (rule CIDRMask_bit)
    finally show "bit (IP ipnet ! (k div 8)) (7 - k mod 8) \<longleftrightarrow>
           int k < n \<and> bit (?lit ! (k div 8)) (7 - k mod 8)"
      by blast
  qed
  from buildRequest_option [OF c, of e] obtain opt es where
    e: "Extra (buildRequest e q) = [RR_OPT opt]" "Option opt = [es]"
       "Address es = (case To4 (IP ipnet) of Some ipv4 \<Rightarrow> ipv4 | None \<Rightarrow> IP ipnet)"
    by simp
  from p c b n0 nb nd li lm bits e show ?thesis
    by (intro exI [of _ ip] exI [of _ ipnet] exI [of _ n] exI [of _ bits] exI [of _ opt]
        exI [of _ es]) simp
qed

theorem client_subnet_address_is_masked_witness:
  "\<exists>q opt es.
     parseQuery noUpstream
       [''name'' \<mapsto> [''example.com''], ''edns_client_subnet'' \<mapsto> [''1.2.3.4/24'']] = Inr q \<and>
     Extra (buildRequest noUpstream q) = [RR_OPT opt] \<and> Option opt = [es] \<and>
     Address es = [1, 2, 3, 0]"
proof -
  let ?uq = "[''name'' \<mapsto> [''example.com''], ''edns_client_subnet'' \<mapsto> [''1.2.3.4/24'']]"
  let ?q = "\<lparr>name = ''example.com'', rrType = 1, cd = False,
        clientSubnet = Some \<lparr>IP = [1, 2, 3, 0], Mask = [255, 255, 255, 0]\<rparr>\<rparr>"
  have pq: "parseQuery noUpstream ?uq = Inr ?q"
    by (rule parseQuery_subnet_examples)
  have s: "simplify ?uq ''edns_client_subnet'' = Some ''1.2.3.4/24''"
    by (simp add: simplify_def)
  from client_subnet_address_is_masked [OF pq s] obtain ip ipnet opt es where
    p: "ParseCIDR ''1.2.3.4/24'' = Some (ip, ipnet)" and
    x: "Extra (buildRequest noUpstream ?q) = [RR_OPT opt]" "Option opt = [es]" and
    a: "Address es = (case To4 (IP ipnet) of Some ipv4 \<Rightarrow> ipv4 | None \<Rightarrow> IP ipnet)"
    by blast
  from p have "ipnet = \<lparr>IP = [1, 2, 3, 0], Mask = [255, 255, 255, 0]\<rparr>"
    by (simp add: ParseCIDR_examples)
  with a have "Address es = [1, 2, 3, 0]"
    by (simp add: To4_def IPv4len_def)
  with x have "Extra (buildRequest noUpstream ?q) = [RR_OPT opt] \<and> Option opt = [es] \<and>
     Address es = [1, 2, 3, 0]"
    by simp
  with pq show ?thesis by blast
qed

section \<open>The source netmask\<close>

lemma tl_dropWhile_example: "tl (dropWhile (\<lambda>c. c \<noteq> CHR ''/'') ''1.2.3.0/24'') = ''24''"
  by simp

text \<open>
  Claim C1. The source netmask of the option. For a query that passes validation with a
  client subnet \<open>s\<close>, \<open>ParseCIDR\<close> accepts \<open>s\<close> with prefix length \<open>n\<close> (the number after
  the slash) in a family of \<open>bits\<close> bits, and \<open>Size\<close> of the network's mask returns the
  pair \<open>(n, bits)\<close>. The handler reads \<open>_, maskSize := q.clientSubnet.Mask.Size()\<close>: it
  drops the prefix length and sends the second result. The source netmask of the option is
  therefore the width of the address family, 32 for every IPv4 subnet and 128 for every
  IPv6 subnet, whatever the prefix length of the subnet is.
\<close>

theorem source_netmask_is_address_width:
  assumes "parseQuery e uq = Inr q" and "simplify uq ''edns_client_subnet'' = Some s"
  shows "\<exists>ip ipnet n bits opt es.
     ParseCIDR s = Some (ip, ipnet) \<and> clientSubnet q = Some ipnet \<and>
     (bits = 32 \<or> bits = 128) \<and> 0 \<le> n \<and> n \<le> bits \<and>
     n = int (fst (dtoi (tl (dropWhile (\<lambda>c. c \<noteq> CHR ''/'') s)))) \<and>
     Size (Mask ipnet) = (n, bits) \<and>
     Extra (buildRequest e q) = [RR_OPT opt] \<and> Option opt = [es] \<and>
     SourceNetmask es = of_int bits"
proof -
  from parseQuery_subnet [OF assms] obtain ip ipnet where
    p: "ParseCIDR s = Some (ip, ipnet)" and c: "clientSubnet q = Some ipnet" by blast
  from ParseCIDR_Some [OF p] obtain n bits where
    b: "bits = 32 \<or> bits = 128" and n0: "0 \<le> n" and nb: "n \<le> bits" and
    nd: "n = int (fst (dtoi (tl (dropWhile (\<lambda>c. c \<noteq> CHR ''/'') s))))" and
    m: "Mask ipnet = CIDRMask n bits"
    by blast
  have sz: "Size (Mask ipnet) = (n, bits)"
    unfolding m using n0 nb b by (rule Size_CIDRMask)
  from buildRequest_option [OF c, of e] sz obtain opt es where
    "Extra (buildRequest e q) = [RR_OPT opt]" "Option opt = [es]"
    "SourceNetmask es = of_int bits"
    by simp
  with p c b n0 nb nd sz show ?thesis
    by (intro exI [of _ ip] exI [of _ ipnet] exI [of _ n] exI [of _ bits] exI [of _ opt]
        exI [of _ es]) simp
qed

theorem source_netmask_is_address_width_witness:
  "\<exists>q ipnet opt es.
     parseQuery noUpstream
       [''name'' \<mapsto> [''example.com''], ''edns_client_subnet'' \<mapsto> [''1.2.3.0/24'']] = Inr q \<and>
     clientSubnet q = Some ipnet \<and> Size (Mask ipnet) = (24, 32) \<and>
     Extra (buildRequest noUpstream q) = [RR_OPT opt] \<and> Option opt = [es] \<and>
     SourceNetmask es = 32"
proof -
  let ?uq = "[''name'' \<mapsto> [''example.com''], ''edns_client_subnet'' \<mapsto> [''1.2.3.0/24'']]"
  let ?q = "\<lparr>name = ''example.com'', rrType = 1, cd = False,
        clientSubnet = Some \<lparr>IP = [1, 2, 3, 0], Mask = [255, 255, 255, 0]\<rparr>\<rparr>"
  have pq: "parseQuery noUpstream ?uq = Inr ?q"
    by (rule parseQuery_subnet_examples)
  have s: "simplify ?uq ''edns_client_subnet'' = Some ''1.2.3.0/24''"
    by (simp add: simplify_def)
  from source_netmask_is_address_width [OF pq s] obtain ip ipnet n bits opt es where
    p: "ParseCIDR ''1.2.3.0/24'' = Some (ip, ipnet)" and
    c: "clientSubnet ?q = Some ipnet" and
    n: "n = int (fst (dtoi (tl (dropWhile (\<lambda>c. c \<noteq> CHR ''/'') ''1.2.3.0/24''))))" and
    sz: "Size (Mask ipnet) = (n, bits)" and
    x: "Extra (buildRequest noUpstream ?q) = [RR_OPT opt]" "Option opt = [es]" and
    sn: "SourceNetmask es = of_int bits"
    by blast
  from n have n24: "n = 24"
    by (simp only: tl_dropWhile_example dtoi_24) simp
  from p have ipnet: "ipnet = \<lparr>IP = [1, 2, 3, 0], Mask = [255, 255, 255, 0]\<rparr>"
    by (simp add: ParseCIDR_examples)
  have "Size (CIDRMask 24 32) = (24, 32)"
    by (rule Size_CIDRMask) simp_all
  with sz ipnet n24 have b32: "bits = 32"
    by (simp add: CIDRMask_24_32)
  from sz n24 b32 have "Size (Mask ipnet) = (24, 32)" by simp
  moreover from sn b32 have "SourceNetmask es = 32" by simp
  ultimately show ?thesis using pq c x by blast
qed

end
